theory Spec2Isabelle
  imports Main "HOL-Library.Word" "HOL-Library.AList"
begin

unbundle bit_operations_syntax

section \<open>Data model of package modbus\<close>

type_synonym byte = "8 word"
type_synonym uint16 = "16 word"
type_synonym uint32 = "32 word"

text \<open>
  A Go map of type \<open>map[string]string\<close> is held as an association list with distinct keys.
  Maps are reference values: a field of map type holds \<open>None\<close> for \<open>nil\<close> or the address
  of the map in a store, so that two fields can share one map. \<open>newMap\<close> is the literal
  \<open>map[string]string{}\<close>.
\<close>

type_synonym labelmap = "(string \<times> string) list"
type_synonym addr = nat

record store =
  cells :: "addr \<Rightarrow> labelmap"
  free :: addr

definition newMap :: "store \<Rightarrow> addr \<times> store" where
  "newMap h = (free h, h\<lparr>cells := (cells h)(free h := []), free := Suc (free h)\<rparr>)"

text \<open>
  Go ranges over a map in an order the runtime picks anew each time. \<open>rangeOrder rnd xs\<close> is
  the order picked for the entries \<open>xs\<close>, \<open>rnd\<close> being the runtime's choices: each entry is
  put at a position the next choice names, so every order is the result of some choices.
  \<open>keys\<close> is the function of that name in modbus.go, which appends the keys as the range
  yields them.
\<close>

definition insertAt :: "nat \<Rightarrow> 'a \<Rightarrow> 'a list \<Rightarrow> 'a list" where
  "insertAt n x xs = take (n mod Suc (length xs)) xs @ x # drop (n mod Suc (length xs)) xs"

fun rangeOrder :: "nat list \<Rightarrow> 'a list \<Rightarrow> 'a list" where
  "rangeOrder rnd [] = []"
| "rangeOrder [] (x # xs) = x # rangeOrder [] xs"
| "rangeOrder (n # rnd) (x # xs) = insertAt n x (rangeOrder rnd xs)"

definition keys :: "nat list \<Rightarrow> labelmap \<Rightarrow> string list" where
  "keys rnd m = rangeOrder rnd (map fst m)"

text \<open>
  Every \<open>float64\<close> this package produces is the exact widening of an integer of at most
  32 bits or of a \<open>float32\<close>; it is kept as the number it was widened from.
\<close>

datatype float64 =
    Float64FromInt int
  | Float64FromFloat32 uint32

text \<open>
  Modelled from the spec: package config is not under src/. A metric definition has a
  name, a help text, a label mapping, a numeric address, a wire data type, an optional bit
  offset and a metric kind. The constants and the field names are those modbus.go uses:
  six data type constants (any other value takes the \<open>default\<close> branch of the decoder) and
  two metric type constants (any other value matches no case of the adapter's switch).
  \<open>Address\<close> is an unsigned 32-bit number. \<open>BitOffset\<close> is a pointer to a Go \<open>int\<close>, \<open>None\<close>
  when it is \<open>nil\<close>; modbus.go converts the \<open>int\<close> to \<open>uint16\<close> to shift by it, which keeps
  its low 16 bits.
\<close>

datatype ModbusDataType =
    ModbusFloat16
  | ModbusFloat32
  | ModbusInt16
  | ModbusInt32
  | ModbusUInt16
  | ModbusBool
  | ModbusDataTypeOther string

datatype MetricType =
    MetricTypeGauge
  | MetricTypeCounter
  | MetricTypeOther string

record MetricDef =
  Name :: string
  Help :: string
  Labels :: "addr option"
  Address :: uint32
  DataType :: ModbusDataType
  BitOffset :: "int option"
  MetricType :: MetricType

text \<open>
  Modelled from the spec: the struct \<open>metric\<close> is declared outside src/. Its fields are the
  AssembledMetric of the spec, in the order of the composite literal in \<open>scrapeMetric\<close>.
\<close>

record metric =
  Name :: string
  Help :: string
  Labels :: "addr option"
  Value :: float64
  MetricType :: MetricType

text \<open>
  Errors keep the arguments of their format strings. \<open>InsufficientRegistersError n len\<close>
  stands for the message \<open>expected at least n, got len\<close>.
\<close>

datatype error =
    InsufficientRegistersError nat nat
  | ExpectedBitPosition
  | UnknownModbusDataType
  | AddressRangeError string uint32
  | MetricAddressError string uint32 error
  | ClientError string
  | RegisterMetricError string error
  | MetricValueError string MetricType float64 labelmap error
  | AlreadyRegistered string
  | InvalidDescriptor string
  | RegistererError string
  | InconsistentCardinality nat nat
  | LabelNameMissing string
  | CounterCannotDecrease
  | ModuleNotFound string
  | UnableToConnect string string
  | ScrapeMetricsError string error
  | RegisterMetricsError string error

datatype panic =
    PanicString string
  | IndexOutOfRange
  | PanicError error

text \<open>
  A Go call either returns or panics. A function of result type \<open>(T, error)\<close> returns a
  pair whose second component is \<open>None\<close> for a \<open>nil\<close> error.
\<close>

datatype 'a outcome =
    Return 'a
  | Panic panic

section \<open>Register decoder\<close>

text \<open>\<open>binary.BigEndian.Uint16\<close> and \<open>Uint32\<close>: \<open>None\<close> is the index-out-of-range panic.\<close>

fun BigEndian_Uint16 :: "byte list \<Rightarrow> uint16 option" where
  "BigEndian_Uint16 (b0 # b1 # _) = Some (ucast b1 OR push_bit 8 (ucast b0))"
| "BigEndian_Uint16 _ = None"

fun BigEndian_Uint32 :: "byte list \<Rightarrow> uint32 option" where
  "BigEndian_Uint32 (b0 # b1 # b2 # b3 # _) =
     Some (ucast b3 OR push_bit 8 (ucast b2) OR push_bit 16 (ucast b1) OR push_bit 24 (ucast b0))"
| "BigEndian_Uint32 _ = None"

definition parseModbusData :: "MetricDef \<Rightarrow> byte list \<Rightarrow> (float64 \<times> error option) outcome" where
  "parseModbusData d rawData =
     (case DataType d of
        ModbusFloat16 \<Rightarrow>
          if length rawData < 2
          then Return (Float64FromInt 0, Some (InsufficientRegistersError 1 (length rawData)))
          else Panic (PanicString ''implement'')
      | ModbusFloat32 \<Rightarrow>
          if length rawData < 4
          then Return (Float64FromInt 0, Some (InsufficientRegistersError 2 (length rawData)))
          else (case BigEndian_Uint32 (take 4 rawData) of
                  None \<Rightarrow> Panic IndexOutOfRange
                | Some bits \<Rightarrow> Return (Float64FromFloat32 bits, None))
      | ModbusInt16 \<Rightarrow>
          if length rawData < 2
          then Return (Float64FromInt 0, Some (InsufficientRegistersError 1 (length rawData)))
          else (case BigEndian_Uint16 rawData of
                  None \<Rightarrow> Panic IndexOutOfRange
                | Some i \<Rightarrow> Return (Float64FromInt (sint i), None))
      | ModbusInt32 \<Rightarrow>
          if length rawData < 4
          then Return (Float64FromInt 0, Some (InsufficientRegistersError 2 (length rawData)))
          else (case BigEndian_Uint16 rawData of
                  None \<Rightarrow> Panic IndexOutOfRange
                | Some i \<Rightarrow> Return (Float64FromInt (uint i), None))
      | ModbusUInt16 \<Rightarrow>
          if length rawData < 2
          then Return (Float64FromInt 0, Some (InsufficientRegistersError 1 (length rawData)))
          else (case BigEndian_Uint32 rawData of
                  None \<Rightarrow> Panic IndexOutOfRange
                | Some i \<Rightarrow> Return (Float64FromInt (uint i), None))
      | ModbusBool \<Rightarrow>
          if length rawData < 2
          then Return (Float64FromInt 0, Some (InsufficientRegistersError 1 (length rawData)))
          else (case BitOffset d of
                  None \<Rightarrow> Return (Float64FromInt 0, Some ExpectedBitPosition)
                | Some off \<Rightarrow>
                    (case BigEndian_Uint16 rawData of
                       None \<Rightarrow> Panic IndexOutOfRange
                     | Some data \<Rightarrow>
                         if data AND push_bit (unat (word_of_int off :: uint16)) (1 :: uint16) > 0
                         then Return (Float64FromInt 1, None)
                         else Return (Float64FromInt 0, None)))
      | ModbusDataTypeOther _ \<Rightarrow> Return (Float64FromInt 0, Some UnknownModbusDataType))"


section \<open>Protocol client and metric scraper\<close>

text \<open>
  \<open>modbus.Client\<close> is an interface of the protocol library. A read is a request to the
  device: it takes the address and the quantity, and the state \<open>'s\<close> of the connection and
  the device, and returns the bytes, the error and the new state.
\<close>

type_synonym 's modbusFunc = "uint16 \<Rightarrow> uint16 \<Rightarrow> 's \<Rightarrow> (byte list \<times> error option) \<times> 's"

record 's Client =
  ReadCoils :: "'s modbusFunc"
  ReadDiscreteInputs :: "'s modbusFunc"
  ReadInputRegisters :: "'s modbusFunc"
  ReadHoldingRegisters :: "'s modbusFunc"

definition emptyMetric :: metric where
  "emptyMetric = \<lparr>metric.Name = [], Help = [], Labels = None, Value = Float64FromInt 0,
     MetricType = MetricTypeOther []\<rparr>"

definition scrapeMetric ::
  "MetricDef \<Rightarrow> 's modbusFunc \<Rightarrow> 's \<Rightarrow> (metric \<times> error option) outcome \<times> 's" where
  "scrapeMetric d f s =
     (let quantity = (2 :: uint16) in
      case f (ucast (MetricDef.Address d mod 10000)) quantity s of
        ((modBytes, Some err), s') \<Rightarrow> (Return (emptyMetric, Some err), s')
      | ((modBytes, None), s') \<Rightarrow>
          (case parseModbusData d modBytes of
             Panic p \<Rightarrow> (Panic p, s')
           | Return (v, Some err) \<Rightarrow> (Return (emptyMetric, Some err), s')
           | Return (v, None) \<Rightarrow>
               (Return (\<lparr>metric.Name = MetricDef.Name d, Help = MetricDef.Help d,
                          Labels = MetricDef.Labels d, Value = v,
                          MetricType = MetricDef.MetricType d\<rparr>, None), s')))"

text \<open>The \<open>switch\<close> of \<open>scrapeMetrics\<close> on \<open>definition.Address / 10000\<close>; \<open>None\<close> is its default branch.\<close>

definition selectFunc :: "'s Client \<Rightarrow> MetricDef \<Rightarrow> 's modbusFunc option" where
  "selectFunc c d =
     (let k = MetricDef.Address d div 10000 in
      if k = 0 then Some (ReadCoils c)
      else if k = 1 then Some (ReadDiscreteInputs c)
      else if k = 3 then Some (ReadInputRegisters c)
      else if k = 4 then Some (ReadHoldingRegisters c)
      else None)"

fun scrapeMetrics_loop ::
  "MetricDef list \<Rightarrow> 's Client \<Rightarrow> metric list \<Rightarrow> 's \<Rightarrow> (metric list \<times> error option) outcome \<times> 's" where
  "scrapeMetrics_loop [] c metrics s = (Return (metrics, None), s)"
| "scrapeMetrics_loop (d # definitions) c metrics s =
     (case selectFunc c d of
        None \<Rightarrow> (Return ([], Some (AddressRangeError (MetricDef.Name d) (MetricDef.Address d))), s)
      | Some f \<Rightarrow>
          (case scrapeMetric d f s of
             (Panic p, s') \<Rightarrow> (Panic p, s')
           | (Return (m, Some err), s') \<Rightarrow>
               (Return ([], Some (MetricAddressError (MetricDef.Name d) (MetricDef.Address d) err)), s')
           | (Return (m, None), s') \<Rightarrow> scrapeMetrics_loop definitions c (metrics @ [m]) s'))"

definition scrapeMetrics ::
  "MetricDef list \<Rightarrow> 's Client \<Rightarrow> 's \<Rightarrow> (metric list \<times> error option) outcome \<times> 's" where
  "scrapeMetrics definitions c s =
     (if length definitions = 0 then (Return ([], None), s)
      else scrapeMetrics_loop definitions c [] s)"

section \<open>Metrics library\<close>

text \<open>
  The metrics library is not part of this repository. A collector vector has a name, a
  help text, a kind and a label schema, and one child per combination of label values.
  A child is kept as the list of the values applied to it: a gauge holds the value last
  set, a counter the values added to it (its accumulation is their sum).
\<close>

record Collector =
  fqName :: string
  helpStr :: string
  kind :: MetricType
  variableLabels :: "string list"
  children :: "(string list \<times> float64 list) list"

definition NewGaugeVec :: "string \<Rightarrow> string \<Rightarrow> string list \<Rightarrow> Collector" where
  "NewGaugeVec name helpText labelNames =
     \<lparr>fqName = name, helpStr = helpText, kind = MetricTypeGauge, variableLabels = labelNames,
      children = []\<rparr>"

definition NewCounterVec :: "string \<Rightarrow> string \<Rightarrow> string list \<Rightarrow> Collector" where
  "NewCounterVec name helpText labelNames =
     \<lparr>fqName = name, helpStr = helpText, kind = MetricTypeCounter, variableLabels = labelNames,
      children = []\<rparr>"

text \<open>
  \<open>prometheus.Registerer\<close> is an interface: \<open>Register\<close> accepts or rejects a collector, as
  its implementation decides from the collectors it holds. An accepted collector is
  appended; its position is the pointer the caller keeps.
\<close>

record Registerer =
  check :: "Collector list \<Rightarrow> Collector \<Rightarrow> error option"
  collectors :: "Collector list"

definition Register :: "Registerer \<Rightarrow> Collector \<Rightarrow> error option \<times> Registerer" where
  "Register reg c =
     (case check reg (collectors reg) c of
        Some err \<Rightarrow> (Some err, reg)
      | None \<Rightarrow> (None, reg\<lparr>collectors := collectors reg @ [c]\<rparr>))"

text \<open>
  \<open>prometheus.NewRegistry\<close>: a registry rejects a collector whose descriptor the library
  finds invalid (\<open>valid\<close>, the library's validation of names, help and label names) and a
  collector whose name is registered already.
\<close>

definition NewRegistry :: "(Collector \<Rightarrow> bool) \<Rightarrow> Registerer" where
  "NewRegistry valid =
     \<lparr>check = (\<lambda>cs c.
         if \<not> valid c then Some (InvalidDescriptor (fqName c))
         else if fqName c \<in> set (map fqName cs) then Some (AlreadyRegistered (fqName c))
         else None),
      collectors = []\<rparr>"

text \<open>
  \<open>With(labels)\<close> panics with an error unless the label map has exactly the names of the
  schema; otherwise it yields the child for the label values in schema order. \<open>labelValues\<close>
  is that check: \<open>Inl\<close> carries the error of the panic, \<open>Inr\<close> the label values.
\<close>

definition labelValues :: "Collector \<Rightarrow> labelmap \<Rightarrow> error + string list" where
  "labelValues c labels =
     (if length labels \<noteq> length (variableLabels c)
      then Inl (InconsistentCardinality (length (variableLabels c)) (length labels))
      else (case find (\<lambda>n. map_of labels n = None) (variableLabels c) of
              Some n \<Rightarrow> Inl (LabelNameMissing n)
            | None \<Rightarrow> Inr (map (\<lambda>n. case map_of labels n of None \<Rightarrow> [] | Some v \<Rightarrow> v)
                              (variableLabels c))))"

definition childValues :: "Collector \<Rightarrow> string list \<Rightarrow> float64 list" where
  "childValues c lvs = (case map_of (children c) lvs of None \<Rightarrow> [] | Some vs \<Rightarrow> vs)"

text \<open>
  When the check passes, \<open>With\<close> creates the child if the vector has none for these label
  values (a child no value has been applied to) and yields it.
\<close>

definition withChild :: "string list \<Rightarrow> Collector \<Rightarrow> Collector" where
  "withChild lvs c = c\<lparr>children := AList.update lvs (childValues c lvs) (children c)\<rparr>"

definition With :: "Collector \<Rightarrow> labelmap \<Rightarrow> error + (string list \<times> Collector)" where
  "With c labels =
     (case labelValues c labels of
        Inl err \<Rightarrow> Inl err
      | Inr lvs \<Rightarrow> Inr (lvs, withChild lvs c))"

definition gaugeSet :: "float64 \<Rightarrow> string list \<Rightarrow> Collector \<Rightarrow> Collector" where
  "gaugeSet v lvs c = c\<lparr>children := AList.update lvs [v] (children c)\<rparr>"

definition float32_isNaN :: "uint32 \<Rightarrow> bool" where
  "float32_isNaN w = ((w AND 0x7F800000) = 0x7F800000 \<and> (w AND 0x007FFFFF) \<noteq> 0)"

text \<open>The test \<open>v < 0\<close> on a \<open>float64\<close>: false for a NaN and for either zero.\<close>

fun float64_less_zero :: "float64 \<Rightarrow> bool" where
  "float64_less_zero (Float64FromInt i) = (i < 0)"
| "float64_less_zero (Float64FromFloat32 w) =
     (bit w 31 \<and> (w AND 0x7FFFFFFF) \<noteq> 0 \<and> \<not> float32_isNaN w)"

text \<open>\<open>Add\<close> on a counter panics with an error when the value is below zero.\<close>

definition counterAdd :: "float64 \<Rightarrow> string list \<Rightarrow> Collector \<Rightarrow> error + Collector" where
  "counterAdd v lvs c =
     (if float64_less_zero v then Inl CounterCannotDecrease
      else Inr (c\<lparr>children := AList.update lvs (childValues c lvs @ [v]) (children c)\<rparr>))"

section \<open>Metric registry adapter\<close>

record regState =
  heap :: store
  reg :: Registerer
  registeredGauges :: "string \<rightharpoonup> nat"
  registeredCounters :: "string \<rightharpoonup> nat"

text \<open>\<open>collector.With(m.Labels).Set(m.Value)\<close> on the collector at \<open>p\<close>; its panic is not recovered.\<close>

definition withSet :: "nat \<Rightarrow> labelmap \<Rightarrow> float64 \<Rightarrow> regState \<Rightarrow> error option outcome \<times> regState" where
  "withSet p labels v st =
     (case With (collectors (reg st) ! p) labels of
        Inl err \<Rightarrow> (Panic (PanicError err), st)
      | Inr (lvs, c) \<Rightarrow>
          (Return None,
           st\<lparr>reg := (reg st)\<lparr>collectors := (collectors (reg st))[p := gaugeSet v lvs c]\<rparr>\<rparr>))"

text \<open>
  \<open>collector.With(m.Labels).Add(m.Value)\<close> inside the function that recovers a panic: the
  recovered error is returned with the metric's name, type, value and labels. When it is
  \<open>Add\<close> that panics, the child \<open>With\<close> has created stays in the vector.
\<close>

definition withAdd :: "nat \<Rightarrow> metric \<Rightarrow> labelmap \<Rightarrow> regState \<Rightarrow> error option outcome \<times> regState" where
  "withAdd p m labels st =
     (case With (collectors (reg st) ! p) labels of
        Inl err \<Rightarrow>
          (Return (Some (MetricValueError (metric.Name m) (metric.MetricType m) (metric.Value m) labels err)), st)
      | Inr (lvs, c) \<Rightarrow>
          (case counterAdd (metric.Value m) lvs c of
             Inl err \<Rightarrow>
               (Return (Some (MetricValueError (metric.Name m) (metric.MetricType m) (metric.Value m) labels err)),
                st\<lparr>reg := (reg st)\<lparr>collectors := (collectors (reg st))[p := c]\<rparr>\<rparr>)
           | Inr c' \<Rightarrow>
               (Return None,
                st\<lparr>reg := (reg st)\<lparr>collectors := (collectors (reg st))[p := c']\<rparr>\<rparr>)))"

text \<open>
  The first statements of the loop body: a \<open>nil\<close> label map is replaced by a new one in the
  loop's copy of the metric, and the module name is written into the metric's label map.
  The result is the address of that map and the store after the write.
\<close>

definition injectModule :: "string \<Rightarrow> metric \<Rightarrow> store \<Rightarrow> addr \<times> store" where
  "injectModule moduleName m h0 =
     (let (l, h1) = (case metric.Labels m of None \<Rightarrow> newMap h0 | Some a \<Rightarrow> (a, h0))
      in (l, h1\<lparr>cells := (cells h1)(l := AList.update ''module'' moduleName (cells h1 l))\<rparr>))"

text \<open>
  The body of the loop of \<open>registerMetrics\<close>; \<open>Return None\<close> goes on to the next metric.
  \<open>rnd i\<close> are the runtime's choices for the range over the label map when the registry
  holds \<open>i\<close> collectors; within one call each range happens at a different \<open>i\<close>, since it
  is followed by the registration of one more collector or by the return.
\<close>

definition registerMetric ::
  "(nat \<Rightarrow> nat list) \<Rightarrow> string \<Rightarrow> metric \<Rightarrow> regState \<Rightarrow> error option outcome \<times> regState" where
  "registerMetric rnd moduleName m st0 =
     (let (l, h) = injectModule moduleName m (heap st0);
          labels = cells h l;
          st = st0\<lparr>heap := h\<rparr>
      in case metric.MetricType m of
           MetricTypeGauge \<Rightarrow>
             (case registeredGauges st (metric.Name m) of
                None \<Rightarrow>
                  (let collector = NewGaugeVec (metric.Name m) (metric.Help m)
                                     (keys (rnd (length (collectors (reg st)))) labels) in
                   case Register (reg st) collector of
                     (Some err, reg') \<Rightarrow>
                       (Return (Some (RegisterMetricError (metric.Name m) err)), st\<lparr>reg := reg'\<rparr>)
                   | (None, reg') \<Rightarrow>
                       withSet (length (collectors (reg st))) labels (metric.Value m)
                         (st\<lparr>reg := reg',
                             registeredGauges := (registeredGauges st)
                               (metric.Name m \<mapsto> length (collectors (reg st)))\<rparr>))
              | Some p \<Rightarrow> withSet p labels (metric.Value m) st)
         | MetricTypeCounter \<Rightarrow>
             (case registeredCounters st (metric.Name m) of
                None \<Rightarrow>
                  (let collector = NewCounterVec (metric.Name m) (metric.Help m)
                                     (keys (rnd (length (collectors (reg st)))) labels) in
                   case Register (reg st) collector of
                     (Some err, reg') \<Rightarrow>
                       (Return (Some (RegisterMetricError (metric.Name m) err)), st\<lparr>reg := reg'\<rparr>)
                   | (None, reg') \<Rightarrow>
                       withAdd (length (collectors (reg st))) m labels
                         (st\<lparr>reg := reg',
                             registeredCounters := (registeredCounters st)
                               (metric.Name m \<mapsto> length (collectors (reg st)))\<rparr>))
              | Some p \<Rightarrow> withAdd p m labels st)
         | MetricTypeOther _ \<Rightarrow> (Return None, st))"

fun registerMetrics_loop ::
  "(nat \<Rightarrow> nat list) \<Rightarrow> string \<Rightarrow> metric list \<Rightarrow> regState \<Rightarrow> error option outcome \<times> regState" where
  "registerMetrics_loop rnd moduleName [] st = (Return None, st)"
| "registerMetrics_loop rnd moduleName (m # metrics) st =
     (case registerMetric rnd moduleName m st of
        (Return None, st') \<Rightarrow> registerMetrics_loop rnd moduleName metrics st'
      | (r, st') \<Rightarrow> (r, st'))"

text \<open>The state at the start of \<open>registerMetrics\<close>: both tables are empty.\<close>

definition newState :: "Registerer \<Rightarrow> store \<Rightarrow> regState" where
  "newState r h =
     \<lparr>heap = h, reg = r, registeredGauges = Map.empty, registeredCounters = Map.empty\<rparr>"

definition registerMetrics ::
  "(nat \<Rightarrow> nat list) \<Rightarrow> Registerer \<Rightarrow> string \<Rightarrow> metric list \<Rightarrow> store
     \<Rightarrow> error option outcome \<times> store \<times> Registerer" where
  "registerMetrics rnd r moduleName metrics h =
     (case registerMetrics_loop rnd moduleName metrics (newState r h) of
        (res, st) \<Rightarrow> (res, heap st, reg st))"

section \<open>Scrape orchestrator\<close>

text \<open>
  Modelled from the spec: the configuration collaborator is not under src/.
  \<open>GetModule(name) -> Module | nil\<close>, where a module carries a name, an optional timeout
  (0 means the protocol default) and an ordered list of metric definitions.
\<close>

record Module =
  Name :: string
  Timeout :: int
  Metrics :: "MetricDef list"

type_synonym Config = "Module list"

definition GetModule :: "Config \<Rightarrow> string \<Rightarrow> Module option" where
  "GetModule cfg name = find (\<lambda>m. Module.Name m = name) cfg"

record Exporter =
  config :: Config

text \<open>
  The TCP handler of the protocol library: connecting to a target with a timeout (\<open>None\<close>
  leaves the library's default) and a slave id gives a client, or fails. \<open>Scrape\<close> takes
  the runtime's choices \<open>rnd\<close> and the library's validation \<open>valid\<close> besides its own arguments.
\<close>

type_synonym 's Network = "string \<Rightarrow> int option \<Rightarrow> byte \<Rightarrow> 's Client option"

definition Scrape ::
  "(nat \<Rightarrow> nat list) \<Rightarrow> (Collector \<Rightarrow> bool) \<Rightarrow> 's Network \<Rightarrow> Exporter \<Rightarrow> string \<Rightarrow> byte \<Rightarrow> string
     \<Rightarrow> store \<Rightarrow> 's \<Rightarrow> (Registerer option \<times> error option) outcome \<times> store \<times> 's" where
  "Scrape rnd valid net e targetAddress subTarget moduleName h s =
     (let r = NewRegistry valid in
      case GetModule (config e) moduleName of
        None \<Rightarrow> (Return (None, Some (ModuleNotFound moduleName)), h, s)
      | Some module \<Rightarrow>
          (case net targetAddress
                  (if Module.Timeout module \<noteq> 0 then Some (Module.Timeout module) else None)
                  subTarget of
             None \<Rightarrow> (Return (None, Some (UnableToConnect targetAddress (Module.Name module))), h, s)
           | Some c \<Rightarrow>
               (case scrapeMetrics (Metrics module) c s of
                  (Panic p, s') \<Rightarrow> (Panic p, h, s')
                | (Return (metrics, Some err), s') \<Rightarrow>
                    (Return (None, Some (ScrapeMetricsError moduleName err)), h, s')
                | (Return (metrics, None), s') \<Rightarrow>
                    (case registerMetrics rnd r moduleName metrics h of
                       (Panic p, h', r') \<Rightarrow> (Panic p, h', s')
                     | (Return (Some err), h', r') \<Rightarrow>
                         (Return (None, Some (RegisterMetricsError moduleName err)), h', s')
                     | (Return None, h', r') \<Rightarrow> (Return (Some r', None), h', s')))))"

section \<open>Derived notions and example inputs\<close>

text \<open>The label map of a metric once the loop body has written the module name into it.\<close>

definition labelsOf :: "string \<Rightarrow> metric \<Rightarrow> store \<Rightarrow> labelmap" where
  "labelsOf moduleName m h = (case injectModule moduleName m h of (l, h') \<Rightarrow> cells h' l)"

text \<open>
  The tables of a state point at collectors the call has created, from position \<open>n0\<close> of
  the registry on: each entry names a collector of its table's kind and of the entry's
  name, and each collector from \<open>n0\<close> on is the entry of its name in the table of its kind.
\<close>

definition tablesOK :: "nat \<Rightarrow> regState \<Rightarrow> bool" where
  "tablesOK n0 st =
     (n0 \<le> length (collectors (reg st))
      \<and> (\<forall>name p. registeredGauges st name = Some p \<longrightarrow>
             n0 \<le> p \<and> p < length (collectors (reg st))
             \<and> fqName (collectors (reg st) ! p) = name
             \<and> kind (collectors (reg st) ! p) = MetricTypeGauge)
      \<and> (\<forall>name p. registeredCounters st name = Some p \<longrightarrow>
             n0 \<le> p \<and> p < length (collectors (reg st))
             \<and> fqName (collectors (reg st) ! p) = name
             \<and> kind (collectors (reg st) ! p) = MetricTypeCounter)
      \<and> (\<forall>i. n0 \<le> i \<and> i < length (collectors (reg st)) \<longrightarrow>
             (kind (collectors (reg st) ! i) = MetricTypeGauge
                \<and> registeredGauges st (fqName (collectors (reg st) ! i)) = Some i)
             \<or> (kind (collectors (reg st) ! i) = MetricTypeCounter
                \<and> registeredCounters st (fqName (collectors (reg st) ! i)) = Some i)))"

definition metricDefAt :: "uint32 \<Rightarrow> ModbusDataType \<Rightarrow> MetricDef" where
  "metricDefAt a t =
     \<lparr>MetricDef.Name = ''m'', Help = ''h'', Labels = None, Address = a, DataType = t,
      BitOffset = None, MetricType = MetricTypeGauge\<rparr>"

definition boolDef :: "int option \<Rightarrow> MetricDef" where
  "boolDef b = (metricDefAt 40001 ModbusBool)\<lparr>BitOffset := b\<rparr>"

text \<open>A client that answers every read with the same bytes and records the requests it gets.\<close>

definition fakeClient :: "byte list \<Rightarrow> (string \<times> uint16 \<times> uint16) list Client" where
  "fakeClient raw =
     \<lparr>ReadCoils = (\<lambda>a q log. ((raw, None), log @ [(''ReadCoils'', a, q)])),
      ReadDiscreteInputs = (\<lambda>a q log. ((raw, None), log @ [(''ReadDiscreteInputs'', a, q)])),
      ReadInputRegisters = (\<lambda>a q log. ((raw, None), log @ [(''ReadInputRegisters'', a, q)])),
      ReadHoldingRegisters = (\<lambda>a q log. ((raw, None), log @ [(''ReadHoldingRegisters'', a, q)]))\<rparr>"

definition emptyStore :: store where
  "emptyStore = \<lparr>cells = (\<lambda>_. []), free = 0\<rparr>"

definition counterMetric :: "string \<Rightarrow> int \<Rightarrow> metric" where
  "counterMetric n v =
     \<lparr>metric.Name = n, Help = ''h'', Labels = None, Value = Float64FromInt v,
      MetricType = MetricTypeCounter\<rparr>"

definition gaugeMetric :: "string \<Rightarrow> int \<Rightarrow> metric" where
  "gaugeMetric n v =
     \<lparr>metric.Name = n, Help = ''h'', Labels = None, Value = Float64FromInt v,
      MetricType = MetricTypeGauge\<rparr>"

definition exampleRegistry :: Registerer where
  "exampleRegistry = NewRegistry (\<lambda>_. True)"

definition exampleStore :: store where
  "exampleStore = \<lparr>cells = (\<lambda>_. [])(0 := [(''unit'', ''kW'')]), free = 1\<rparr>"

definition exampleExporter :: Exporter where
  "exampleExporter =
     \<lparr>config = [\<lparr>Module.Name = ''mod'', Timeout = 0,
                  Metrics = [(metricDefAt 40001 ModbusInt16)\<lparr>MetricDef.Labels := Some 0\<rparr>]\<rparr>]\<rparr>"

definition exampleNetwork :: "(string \<times> uint16 \<times> uint16) list Network" where
  "exampleNetwork = (\<lambda>target timeout slave. Some (fakeClient [0x00, 0x07, 0x00, 0x00]))"

section \<open>Bytes and words\<close>

lemma byte_lt: "unat (b :: byte) < 256"
  using unsigned_less [of b, where 'a = nat] by simp

lemma unat_ucast16: "unat (ucast (b :: byte) :: uint16) = unat b"
proof -
  have "unat b < 2 ^ 16" using byte_lt [of b] by simp
  then show ?thesis by (simp add: unsigned_ucast_eq take_bit_nat_eq_self)
qed

lemma or16_add:
  "(ucast (b1 :: byte) OR push_bit 8 (ucast (b0 :: byte)) :: uint16) = ucast b1 + push_bit 8 (ucast b0)"
  by (rule disjunctive_add_eq_or [symmetric]) (auto simp: bit_eq_iff bit_simps dest: bit_imp_le_length)

lemma be16_unat:
  "unat (ucast (b1 :: byte) OR push_bit 8 (ucast (b0 :: byte)) :: uint16) = unat b0 * 256 + unat b1"
proof -
  have "unat (ucast b1 + push_bit 8 (ucast b0) :: uint16) = (unat b1 + unat b0 * 256) mod 65536"
    by (simp add: unat_word_ariths push_bit_eq_mult unat_ucast16 mod_simps)
  then show ?thesis using byte_lt [of b0] byte_lt [of b1] by (simp add: or16_add)
qed

lemma unat_ucast32: "unat (ucast (b :: byte) :: uint32) = unat b"
proof -
  have "unat b < 2 ^ 32" using byte_lt [of b] by simp
  then show ?thesis by (simp add: unsigned_ucast_eq take_bit_nat_eq_self)
qed

lemma or32_add:
  "(ucast (b3 :: byte) OR push_bit 8 (ucast (b2 :: byte)) OR push_bit 16 (ucast (b1 :: byte))
      OR push_bit 24 (ucast (b0 :: byte)) :: uint32)
   = ucast b3 + (push_bit 8 (ucast b2) + (push_bit 16 (ucast b1) + push_bit 24 (ucast b0)))"
proof -
  have 1: "(push_bit 16 (ucast b1) OR push_bit 24 (ucast b0) :: uint32)
      = push_bit 16 (ucast b1) + push_bit 24 (ucast b0)"
    by (rule disjunctive_add_eq_or [symmetric])
      (auto simp: bit_eq_iff bit_simps dest: bit_imp_le_length)
  have 2: "(push_bit 8 (ucast b2) OR (push_bit 16 (ucast b1) OR push_bit 24 (ucast b0)) :: uint32)
      = push_bit 8 (ucast b2) + (push_bit 16 (ucast b1) OR push_bit 24 (ucast b0))"
    by (rule disjunctive_add_eq_or [symmetric])
      (auto simp: bit_eq_iff bit_simps dest: bit_imp_le_length)
  have 3: "(ucast b3 OR (push_bit 8 (ucast b2) OR (push_bit 16 (ucast b1) OR push_bit 24 (ucast b0))) :: uint32)
      = ucast b3 + (push_bit 8 (ucast b2) OR (push_bit 16 (ucast b1) OR push_bit 24 (ucast b0)))"
    by (rule disjunctive_add_eq_or [symmetric])
      (auto simp: bit_eq_iff bit_simps dest: bit_imp_le_length)
  show ?thesis by (subst 3, subst 2, subst 1) (rule refl)
qed

lemma be32_unat:
  "unat (ucast (b3 :: byte) OR push_bit 8 (ucast (b2 :: byte)) OR push_bit 16 (ucast (b1 :: byte))
      OR push_bit 24 (ucast (b0 :: byte)) :: uint32)
   = unat b0 * 16777216 + unat b1 * 65536 + unat b2 * 256 + unat b3"
proof -
  have "unat (ucast b3 + (push_bit 8 (ucast b2) + (push_bit 16 (ucast b1) + push_bit 24 (ucast b0))) :: uint32)
      = (unat b3 + unat b2 * 256 + unat b1 * 65536 + unat b0 * 16777216) mod 4294967296"
    by (simp add: unat_word_ariths push_bit_eq_mult unat_ucast32 mod_simps add.assoc)
  then show ?thesis
    using byte_lt [of b0] byte_lt [of b1] byte_lt [of b2] byte_lt [of b3]
    by (simp add: or32_add)
qed

lemma bit_uint16_nat: "bit (data :: uint16) n = odd (unat data div 2 ^ n)"
proof -
  have "bit data n = bit (unat data) n" by (simp add: bit_unsigned_iff)
  also have "\<dots> = odd (unat data div 2 ^ n)" by (rule bit_iff_odd)
  finally show ?thesis .
qed

lemma mask_test: "((data :: uint16) AND push_bit n 1 > 0) = odd (unat data div 2 ^ n)"
  by (simp add: bit_iff_and_push_bit_not_eq_0 word_gt_0 bit_uint16_nat [symmetric])

lemma mask_test_power: "(0 < (data :: uint16) AND 2 ^ n) = odd (unat data div 2 ^ n)"
  using mask_test [of data n] by (simp add: push_bit_of_1)

lemma unat_word_of_int16: "unat (word_of_int off :: uint16) = nat (off mod 65536)"
  by (simp add: unat_eq_nat_uint uint_word_of_int)

lemma high_bit_clear: "v < 65536 \<Longrightarrow> 16 \<le> n \<Longrightarrow> \<not> odd ((v :: nat) div 2 ^ n)"
proof -
  assume a: "v < 65536" "16 \<le> n"
  have "(2 :: nat) ^ 16 \<le> 2 ^ n" using a(2) by (intro power_increasing) simp_all
  then have "v < 2 ^ n" using a(1) by simp
  then show ?thesis by simp
qed

lemma length_ge2: "2 \<le> length raw \<Longrightarrow> \<exists>b0 b1 r. raw = b0 # b1 # r"
  by (cases raw; cases "tl raw"; auto)

lemma length_ge4: "4 \<le> length raw \<Longrightarrow> \<exists>b0 b1 b2 b3 r. raw = b0 # b1 # b2 # b3 # r"
proof -
  assume a: "4 \<le> length raw"
  then obtain b0 b1 r where r: "raw = b0 # b1 # r" using length_ge2 [of raw] by auto
  with a have "2 \<le> length r" by simp
  then obtain b2 b3 r' where "r = b2 # b3 # r'" using length_ge2 [of r] by auto
  with r show ?thesis by blast
qed

lemma BigEndian_Uint16_value:
  assumes "2 \<le> length raw"
  shows "\<exists>w. BigEndian_Uint16 raw = Some w \<and> unat w = unat (raw ! 0) * 256 + unat (raw ! 1)"
proof -
  from assms obtain b0 b1 r where "raw = b0 # b1 # r" using length_ge2 by blast
  then show ?thesis by (simp add: be16_unat)
qed

lemma BigEndian_Uint32_value:
  assumes "4 \<le> length raw"
  shows "\<exists>w. BigEndian_Uint32 raw = Some w
       \<and> unat w = unat (raw ! 0) * 16777216 + unat (raw ! 1) * 65536 + unat (raw ! 2) * 256
                  + unat (raw ! 3)"
proof -
  from assms obtain b0 b1 b2 b3 r where "raw = b0 # b1 # b2 # b3 # r" using length_ge4 by blast
  then show ?thesis by (simp add: be32_unat)
qed



lemma BigEndian_Uint32_None: "length raw < 4 \<Longrightarrow> BigEndian_Uint32 raw = None"
  by (cases raw rule: BigEndian_Uint32.cases) simp_all

section \<open>Properties of the register decoder\<close>

lemma parseModbusData_Int32:
  assumes "DataType d = ModbusInt32" and "4 \<le> length raw"
  shows "parseModbusData d raw =
    Return (Float64FromInt (int (unat (raw ! 0) * 256 + unat (raw ! 1))), None)"
proof -
  from assms(2) have "2 \<le> length raw" by simp
  then obtain w where w: "BigEndian_Uint16 raw = Some w"
    "unat w = unat (raw ! 0) * 256 + unat (raw ! 1)"
    using BigEndian_Uint16_value by blast
  from w(2) have "uint w = int (unat (raw ! 0) * 256 + unat (raw ! 1))"
    by (metis uint_nat)
  then show ?thesis using assms w(1) by (simp add: parseModbusData_def)
qed

lemma parseModbusData_UInt16_long:
  assumes "DataType d = ModbusUInt16" and "4 \<le> length raw"
  shows "parseModbusData d raw =
    Return (Float64FromInt (int (unat (raw ! 0) * 16777216 + unat (raw ! 1) * 65536
                                   + unat (raw ! 2) * 256 + unat (raw ! 3))), None)"
proof -
  from assms(2) obtain w where w: "BigEndian_Uint32 raw = Some w"
    "unat w = unat (raw ! 0) * 16777216 + unat (raw ! 1) * 65536 + unat (raw ! 2) * 256
                + unat (raw ! 3)"
    using BigEndian_Uint32_value by blast
  from w(2) have "uint w = int (unat (raw ! 0) * 16777216 + unat (raw ! 1) * 65536
      + unat (raw ! 2) * 256 + unat (raw ! 3))"
    by (metis uint_nat)
  then show ?thesis using assms w(1) by (simp add: parseModbusData_def)
qed

lemma parseModbusData_UInt16_short:
  assumes "DataType d = ModbusUInt16" and "2 \<le> length raw" and "length raw < 4"
  shows "parseModbusData d raw = Panic IndexOutOfRange"
  using assms BigEndian_Uint32_None [of raw] by (simp add: parseModbusData_def)


lemma parseModbusData_Bool:
  assumes "DataType d = ModbusBool" and "2 \<le> length raw"
  shows "parseModbusData d raw =
    (case BitOffset d of
       None \<Rightarrow> Return (Float64FromInt 0, Some ExpectedBitPosition)
     | Some off \<Rightarrow>
         Return (Float64FromInt
           (if odd ((unat (raw ! 0) * 256 + unat (raw ! 1)) div 2 ^ nat (off mod 65536)) then 1 else 0),
           None))"
proof -
  from assms(2) obtain w where w: "BigEndian_Uint16 raw = Some w"
    "unat w = unat (raw ! 0) * 256 + unat (raw ! 1)"
    using BigEndian_Uint16_value by blast
  show ?thesis
    using assms w
    by (simp add: parseModbusData_def mask_test mask_test_power unat_word_of_int16 split: option.splits)
qed

text \<open>
  Claim C1 asks that Int32 reads the first four bytes as a signed 32-bit word and that
  UInt16 reads the first two bytes as an unsigned 16-bit word. The code does neither:
  Int32 reads two bytes as an unsigned 16-bit word, and UInt16 reads four bytes as an
  unsigned 32-bit word and panics on a buffer of two or three bytes.
\<close>

theorem C1_int32_uint16_widths:
  "parseModbusData (metricDefAt 40001 ModbusInt32) [0xFF, 0xFF, 0xFF, 0xFF]
     = Return (Float64FromInt 65535, None)
   \<and> parseModbusData (metricDefAt 40001 ModbusInt32) [0x00, 0x01, 0x00, 0x02]
     = Return (Float64FromInt 1, None)
   \<and> parseModbusData (metricDefAt 40001 ModbusUInt16) [0x00, 0x01, 0x00, 0x02]
     = Return (Float64FromInt 65538, None)
   \<and> parseModbusData (metricDefAt 40001 ModbusUInt16) [0x00, 0x01] = Panic IndexOutOfRange"
  by (simp add: parseModbusData_def metricDefAt_def)

text \<open>
  Claim C2, as amended: on a buffer of at least two bytes, decoding Float16 returns
  neither a value nor an error; it panics with the message \<open>implement\<close>. So it never
  returns zero silently.
\<close>

theorem C2_float16_panics:
  assumes "DataType d = ModbusFloat16" and "2 \<le> length raw"
  shows "parseModbusData d raw = Panic (PanicString ''implement'')"
  using assms by (simp add: parseModbusData_def)

theorem C2_float16_panics_witness:
  "parseModbusData (metricDefAt 40001 ModbusFloat16) [0x3C, 0x00] = Panic (PanicString ''implement'')"
  using C2_float16_panics [of "metricDefAt 40001 ModbusFloat16" "[0x3C, 0x00]"]
  by (simp add: metricDefAt_def)

text \<open>Claim C2 as stated fails: on the two bytes 3C 00 no error is returned.\<close>

theorem C2_counterexample:
  "\<not> (\<exists>v err. parseModbusData (metricDefAt 40001 ModbusFloat16) [0x3C, 0x00] = Return (v, Some err))"
  by (simp add: parseModbusData_def metricDefAt_def)

text \<open>
  Claim C3: for each of the six data types, a buffer shorter than the type's minimum
  length (2, 4, 2, 4, 2, 2 bytes) is answered with an InsufficientRegisters error, and a
  buffer of at least that length never is.
\<close>

theorem C3_insufficient_registers:
  assumes "(DataType d, n) \<in> set [(ModbusFloat16, 2), (ModbusFloat32, 4), (ModbusInt16, 2),
        (ModbusInt32, 4), (ModbusUInt16, 2), (ModbusBool, 2)]"
  shows "(length raw < n \<longrightarrow>
            (\<exists>k. parseModbusData d raw =
               Return (Float64FromInt 0, Some (InsufficientRegistersError k (length raw)))))
       \<and> (n \<le> length raw \<longrightarrow>
            (\<forall>v k g. parseModbusData d raw \<noteq> Return (v, Some (InsufficientRegistersError k g))))"
  using assms by (auto simp: parseModbusData_def split: option.splits)

theorem C3_insufficient_registers_witness:
  "(\<exists>k. parseModbusData (metricDefAt 40001 ModbusInt32) [0x00, 0x01] =
         Return (Float64FromInt 0, Some (InsufficientRegistersError k 2)))
   \<and> (\<forall>v k g. parseModbusData (metricDefAt 40001 ModbusInt32) [0x00, 0x01, 0x00, 0x02] \<noteq>
         Return (v, Some (InsufficientRegistersError k g)))"
  using C3_insufficient_registers [of "metricDefAt 40001 ModbusInt32" 4 "[0x00, 0x01]"]
    C3_insufficient_registers [of "metricDefAt 40001 ModbusInt32" 4 "[0x00, 0x01, 0x00, 0x02]"]
  by (simp add: metricDefAt_def numeral_2_eq_2)

text \<open>
  Claim C7, as amended: for a boolean definition and a buffer of at least two bytes, the
  first two bytes are read as a big-endian unsigned 16-bit word; with a bit offset present
  the result is 1.0 if the bit at position (offset mod 65536) of that word is set (0 is
  the least significant bit, and a position of 16 or more holds no bit) and 0.0 otherwise;
  with the bit offset absent the result is the missing-bit-position error.
\<close>

theorem C7_bool_decode:
  assumes "DataType d = ModbusBool" and "2 \<le> length raw"
  shows "parseModbusData d raw =
    (case BitOffset d of
       None \<Rightarrow> Return (Float64FromInt 0, Some ExpectedBitPosition)
     | Some off \<Rightarrow>
         Return (Float64FromInt
           (if odd ((unat (raw ! 0) * 256 + unat (raw ! 1)) div 2 ^ nat (off mod 65536)) then 1 else 0),
           None))"
  using assms by (rule parseModbusData_Bool)

theorem C7_bool_decode_witness:
  "parseModbusData (boolDef (Some 1)) [0x00, 0x02] = Return (Float64FromInt 1, None)
   \<and> parseModbusData (boolDef (Some 0)) [0x00, 0x02] = Return (Float64FromInt 0, None)
   \<and> parseModbusData (boolDef None) [0x00, 0x02] = Return (Float64FromInt 0, Some ExpectedBitPosition)"
  using C7_bool_decode [of "boolDef (Some 1)" "[0x00, 0x02]"]
    C7_bool_decode [of "boolDef (Some 0)" "[0x00, 0x02]"]
    C7_bool_decode [of "boolDef None" "[0x00, 0x02]"]
  by (simp add: boolDef_def metricDefAt_def)

text \<open>
  Claim C7 as stated fails at the bit offset 65536: the word 00 01 has no bit at that
  position, and the code, which shifts by the offset converted to 16 bits, tests bit 0
  and returns 1.0.
\<close>

theorem C7_counterexample:
  "\<not> (parseModbusData (boolDef (Some 65536)) [0x00, 0x01] =
        Return (Float64FromInt
          (if odd ((unat ([0x00, 0x01 :: byte] ! 0) * 256 + unat ([0x00, 0x01 :: byte] ! 1)) div 2 ^ nat 65536)
           then 1 else 0), None))"
proof -
  have "\<not> odd ((unat ([0x00, 0x01 :: byte] ! 0) * 256 + unat ([0x00, 0x01 :: byte] ! 1)) div 2 ^ nat 65536)"
    by (rule high_bit_clear) simp_all
  then have clear: "(if odd ((unat ([0x00, 0x01 :: byte] ! 0) * 256 + unat ([0x00, 0x01 :: byte] ! 1)) div 2 ^ nat 65536)
      then 1 else 0) = (0 :: int)"
    by (rule if_not_P)
  have code: "parseModbusData (boolDef (Some 65536)) [0x00, 0x01] = Return (Float64FromInt 1, None)"
    by (simp add: parseModbusData_def boolDef_def metricDefAt_def)
  show ?thesis unfolding clear code by simp
qed

text \<open>
  Claim C10, as amended: for a boolean definition whose bit offset, converted to 16 bits
  (offset mod 65536), is 16 or greater, and a buffer of at least two bytes, the result is
  0.0 with no error whatever the bytes are; and no bit offset is ever rejected.
\<close>

theorem C10_bit_offset_out_of_range:
  assumes "DataType d = ModbusBool" and "BitOffset d = Some off" and "2 \<le> length raw"
  shows "(16 \<le> off mod 65536 \<longrightarrow> parseModbusData d raw = Return (Float64FromInt 0, None))
     \<and> (\<exists>v. parseModbusData d raw = Return (v, None))"
proof -
  have v: "unat (raw ! 0) * 256 + unat (raw ! 1) < 65536"
    using byte_lt [of "raw ! 0"] byte_lt [of "raw ! 1"] by simp
  have "16 \<le> off mod 65536 \<Longrightarrow> 16 \<le> nat (off mod 65536)" by simp
  then show ?thesis
    using parseModbusData_Bool [OF assms(1,3)] assms(2) high_bit_clear [OF v] by auto
qed

theorem C10_bit_offset_out_of_range_witness:
  "parseModbusData (boolDef (Some 16)) [0xFF, 0xFF] = Return (Float64FromInt 0, None)
   \<and> (\<exists>v. parseModbusData (boolDef (Some 65537)) [0x00, 0x02] = Return (v, None))"
  using C10_bit_offset_out_of_range [of "boolDef (Some 16)" 16 "[0xFF, 0xFF]"]
    C10_bit_offset_out_of_range [of "boolDef (Some 65537)" 65537 "[0x00, 0x02]"]
  by (simp add: boolDef_def metricDefAt_def)

text \<open>
  Claim C10 as stated fails at the bit offset 65537, which is 16 or greater: on the bytes
  00 02 the result is 1.0.
\<close>

theorem C10_counterexample:
  "16 \<le> (65537 :: int)
   \<and> parseModbusData (boolDef (Some 65537)) [0x00, 0x02] = Return (Float64FromInt 1, None)"
  by (simp add: parseModbusData_def boolDef_def metricDefAt_def)

section \<open>Properties of the dispatcher and the scraper\<close>

lemma unat_div_10000: "unat ((a :: uint32) div 10000) = unat a div 10000"
  by (simp add: unat_div)

lemma quot_eq_iff:
  "((a :: uint32) div 10000 = 0) = (unat a div 10000 = 0)"
  "((a :: uint32) div 10000 = 1) = (unat a div 10000 = 1)"
  "((a :: uint32) div 10000 = 3) = (unat a div 10000 = 3)"
  "((a :: uint32) div 10000 = 4) = (unat a div 10000 = 4)"
  using unat_div_10000 [of a] by (auto simp: word_unat_eq_iff simp del: unat_div_10000)

lemma resolved_address:
  "(ucast ((a :: uint32) mod 10000) :: uint16) = word_of_nat (unat a mod 10000)"
proof -
  have "unat (a mod 10000) = unat a mod 10000" by (simp add: unat_mod)
  then show ?thesis using of_nat_unat [of "a mod 10000", where 'a = uint16] by simp
qed

lemma resolved_address_unat:
  "unat (word_of_nat (unat (a :: uint32) mod 10000) :: uint16) = unat a mod 10000"
proof -
  have "unat a mod 10000 < 10000" by simp
  then have "unat a mod 10000 < 65536" by linarith
  then show ?thesis by (simp add: unat_of_nat)
qed

lemma selectFunc_nat:
  "selectFunc c d =
     (if unat (MetricDef.Address d) div 10000 = 0 then Some (ReadCoils c)
      else if unat (MetricDef.Address d) div 10000 = 1 then Some (ReadDiscreteInputs c)
      else if unat (MetricDef.Address d) div 10000 = 3 then Some (ReadInputRegisters c)
      else if unat (MetricDef.Address d) div 10000 = 4 then Some (ReadHoldingRegisters c)
      else None)"
  by (simp add: selectFunc_def quot_eq_iff)

lemma scrapeMetrics_eq_loop: "scrapeMetrics definitions c s = scrapeMetrics_loop definitions c [] s"
  by (cases definitions) (simp_all add: scrapeMetrics_def)

lemma scrapeMetrics_single:
  "scrapeMetrics [d] c s =
     (case selectFunc c d of
        None \<Rightarrow> (Return ([], Some (AddressRangeError (MetricDef.Name d) (MetricDef.Address d))), s)
      | Some f \<Rightarrow>
          (case f (word_of_nat (unat (MetricDef.Address d) mod 10000)) 2 s of
             ((raw, Some err), s') \<Rightarrow>
               (Return ([], Some (MetricAddressError (MetricDef.Name d) (MetricDef.Address d) err)), s')
           | ((raw, None), s') \<Rightarrow>
               (case parseModbusData d raw of
                  Panic p \<Rightarrow> (Panic p, s')
                | Return (v, Some err) \<Rightarrow>
                    (Return ([], Some (MetricAddressError (MetricDef.Name d) (MetricDef.Address d) err)), s')
                | Return (v, None) \<Rightarrow>
                    (Return ([\<lparr>metric.Name = MetricDef.Name d, Help = MetricDef.Help d,
                                 Labels = MetricDef.Labels d, Value = v,
                                 MetricType = MetricDef.MetricType d\<rparr>], None), s'))))"
  by (simp add: scrapeMetrics_eq_loop scrapeMetric_def resolved_address
      split: option.splits prod.splits outcome.splits)

lemma scrape_holding_40001:
  "scrapeMetrics [metricDefAt 40001 ModbusInt16] (fakeClient [0x00, 0x07, 0x00, 0x00]) [] =
     (Return ([\<lparr>metric.Name = ''m'', Help = ''h'', Labels = None, Value = Float64FromInt 7,
                  MetricType = MetricTypeGauge\<rparr>], None),
      [(''ReadHoldingRegisters'', 1, 2)])"
  by (simp add: scrapeMetrics_def scrapeMetric_def selectFunc_def fakeClient_def metricDefAt_def
      parseModbusData_def)

lemma scrape_50000:
  "scrapeMetrics [metricDefAt 50000 ModbusInt16] c s =
     (Return ([], Some (AddressRangeError ''m'' 50000)), s)"
  by (simp add: scrapeMetrics_def selectFunc_def metricDefAt_def)

text \<open>
  Claim C6, as amended: the read function is chosen by the quotient of the address by
  10000, which is the ten-thousands digit only for an address of up to five digits:
  quotient 0 coils, 1 discrete inputs, 3 input registers, 4 holding registers, any other
  quotient (2, and 5 and above, so every address of six digits or more) the range error
  that carries the metric's name and address. The chosen function is called once, with the
  address modulo 10000 and the quantity 2, and its answer and the state it leaves decide
  the result. With the client that records its requests, address 40001 is one read of
  holding register 1; address 50000 fails.
\<close>

theorem C6_dispatch:
  "selectFunc c d =
     (if unat (MetricDef.Address d) div 10000 = 0 then Some (ReadCoils c)
      else if unat (MetricDef.Address d) div 10000 = 1 then Some (ReadDiscreteInputs c)
      else if unat (MetricDef.Address d) div 10000 = 3 then Some (ReadInputRegisters c)
      else if unat (MetricDef.Address d) div 10000 = 4 then Some (ReadHoldingRegisters c)
      else None)
   \<and> scrapeMetrics [d] c s =
     (case selectFunc c d of
        None \<Rightarrow> (Return ([], Some (AddressRangeError (MetricDef.Name d) (MetricDef.Address d))), s)
      | Some f \<Rightarrow>
          (case f (word_of_nat (unat (MetricDef.Address d) mod 10000)) 2 s of
             ((raw, Some err), s') \<Rightarrow>
               (Return ([], Some (MetricAddressError (MetricDef.Name d) (MetricDef.Address d) err)), s')
           | ((raw, None), s') \<Rightarrow>
               (case parseModbusData d raw of
                  Panic p \<Rightarrow> (Panic p, s')
                | Return (v, Some err) \<Rightarrow>
                    (Return ([], Some (MetricAddressError (MetricDef.Name d) (MetricDef.Address d) err)), s')
                | Return (v, None) \<Rightarrow>
                    (Return ([\<lparr>metric.Name = MetricDef.Name d, Help = MetricDef.Help d,
                                 Labels = MetricDef.Labels d, Value = v,
                                 MetricType = MetricDef.MetricType d\<rparr>], None), s'))))
   \<and> unat (word_of_nat (unat (MetricDef.Address d) mod 10000) :: uint16)
       = unat (MetricDef.Address d) mod 10000
   \<and> snd (scrapeMetrics [metricDefAt 40001 ModbusInt16] (fakeClient [0x00, 0x07, 0x00, 0x00]) [])
       = [(''ReadHoldingRegisters'', 1, 2)]
   \<and> scrapeMetrics [metricDefAt 50000 ModbusInt16] c s
       = (Return ([], Some (AddressRangeError ''m'' 50000)), s)"
  using selectFunc_nat [of c d] scrapeMetrics_single [of d c s]
    resolved_address_unat [of "MetricDef.Address d"] scrape_holding_40001 scrape_50000 [of c s]
  by (simp only: snd_conv simp_thms)

text \<open>
  Claim C6 as stated fails at the address 140001: its ten-thousands digit is 4, and the
  code, which looks at the quotient 14, reads nothing and returns the range error.
\<close>

theorem C6_counterexample:
  "(unat (140001 :: uint32) div 10000) mod 10 = 4
   \<and> selectFunc (fakeClient [0x00, 0x07, 0x00, 0x00]) (metricDefAt 140001 ModbusInt16) = None
   \<and> scrapeMetrics [metricDefAt 140001 ModbusInt16] (fakeClient [0x00, 0x07, 0x00, 0x00]) []
       = (Return ([], Some (AddressRangeError ''m'' 140001)), [])"
  by (simp add: scrapeMetrics_def selectFunc_def metricDefAt_def)

lemma scrapeMetric_assembled:
  assumes "scrapeMetric d f s = (Return (m, None), s')"
  shows "metric.Name m = MetricDef.Name d \<and> metric.Help m = MetricDef.Help d
       \<and> metric.Labels m = MetricDef.Labels d \<and> metric.MetricType m = MetricDef.MetricType d
       \<and> (\<exists>raw. parseModbusData d raw = Return (metric.Value m, None))"
  using assms
  by (auto simp: scrapeMetric_def split: prod.splits option.splits outcome.splits)







section \<open>Properties of the range order\<close>

lemma set_insertAt: "set (insertAt n x xs) = insert x (set xs)"
proof -
  have "set (take k xs @ x # drop k xs) = insert x (set xs)" for k
    using append_take_drop_id [of k xs] by (metis Un_insert_right list.simps(15) set_append)
  then show ?thesis by (simp add: insertAt_def)
qed

lemma length_insertAt: "length (insertAt n x xs) = Suc (length xs)"
  by (simp add: insertAt_def)

lemma set_rangeOrder: "set (rangeOrder rnd xs) = set xs"
  by (induction rnd xs rule: rangeOrder.induct) (simp_all add: set_insertAt)

lemma length_rangeOrder: "length (rangeOrder rnd xs) = length xs"
  by (induction rnd xs rule: rangeOrder.induct) (simp_all add: length_insertAt)

lemma rangeOrder_any:
  "distinct xs \<Longrightarrow> distinct ys \<Longrightarrow> set ys = set xs \<Longrightarrow> \<exists>rnd. rangeOrder rnd xs = ys"
proof (induction xs arbitrary: ys)
  case Nil
  then show ?case by simp
next
  case (Cons x xs)
  then have "x \<in> set ys" by simp
  then obtain as bs where ys: "ys = as @ x # bs" by (meson split_list)
  with Cons.prems have d: "distinct (as @ bs)" and s: "set (as @ bs) = set xs" by auto
  from Cons.IH [OF _ d s] Cons.prems(1) obtain rnd where r: "rangeOrder rnd xs = as @ bs" by auto
  have "length as mod Suc (length (as @ bs)) = length as" by simp
  then have "rangeOrder (length as # rnd) (x # xs) = ys"
    using r ys by (simp add: insertAt_def)
  then show ?case by blast
qed

lemma set_keys: "set (keys rnd m) = fst ` set m"
  by (simp add: keys_def set_rangeOrder)

lemma length_keys: "length (keys rnd m) = length m"
  by (simp add: keys_def length_rangeOrder)

lemma labelValues_own_keys:
  assumes "variableLabels c = keys rnd labels"
  shows "labelValues c labels =
    Inr (map (\<lambda>n. case map_of labels n of None \<Rightarrow> [] | Some v \<Rightarrow> v) (keys rnd labels))"
proof -
  have "find (\<lambda>n. map_of labels n = None) (keys rnd labels) = None"
    by (auto simp: find_None_iff set_keys map_of_eq_None_iff)
  then show ?thesis using assms by (simp add: labelValues_def length_keys)
qed


section \<open>Properties of the registry adapter\<close>

lemma labelsOf_module: "map_of (labelsOf moduleName m h) ''module'' = Some moduleName"
  by (simp add: labelsOf_def injectModule_def newMap_def update_conv' split: option.splits prod.splits)

lemma registerMetric_gauge_hit:
  assumes "metric.MetricType m = MetricTypeGauge" and "registeredGauges st (metric.Name m) = Some p"
  shows "registerMetric rnd moduleName m st =
    withSet p (labelsOf moduleName m (heap st)) (metric.Value m)
      (st\<lparr>heap := snd (injectModule moduleName m (heap st))\<rparr>)"
  using assms by (simp add: registerMetric_def labelsOf_def Let_def split: prod.splits)

lemma registerMetric_gauge_miss:
  assumes "metric.MetricType m = MetricTypeGauge" and "registeredGauges st (metric.Name m) = None"
  shows "registerMetric rnd moduleName m st =
    (case check (reg st) (collectors (reg st))
            (NewGaugeVec (metric.Name m) (metric.Help m) (keys (rnd (length (collectors (reg st)))) (labelsOf moduleName m (heap st)))) of
       Some err \<Rightarrow>
         (Return (Some (RegisterMetricError (metric.Name m) err)),
          st\<lparr>heap := snd (injectModule moduleName m (heap st))\<rparr>)
     | None \<Rightarrow>
         withSet (length (collectors (reg st))) (labelsOf moduleName m (heap st)) (metric.Value m)
           (st\<lparr>heap := snd (injectModule moduleName m (heap st)),
               reg := (reg st)\<lparr>collectors := collectors (reg st) @
                  [NewGaugeVec (metric.Name m) (metric.Help m) (keys (rnd (length (collectors (reg st)))) (labelsOf moduleName m (heap st)))]\<rparr>,
               registeredGauges := (registeredGauges st)
                  (metric.Name m \<mapsto> length (collectors (reg st)))\<rparr>))"
  using assms
  by (simp add: registerMetric_def labelsOf_def Let_def Register_def split: prod.splits option.splits)

lemma registerMetric_counter_hit:
  assumes "metric.MetricType m = MetricTypeCounter" and "registeredCounters st (metric.Name m) = Some p"
  shows "registerMetric rnd moduleName m st =
    withAdd p m (labelsOf moduleName m (heap st))
      (st\<lparr>heap := snd (injectModule moduleName m (heap st))\<rparr>)"
  using assms by (simp add: registerMetric_def labelsOf_def Let_def split: prod.splits)

lemma registerMetric_counter_miss:
  assumes "metric.MetricType m = MetricTypeCounter" and "registeredCounters st (metric.Name m) = None"
  shows "registerMetric rnd moduleName m st =
    (case check (reg st) (collectors (reg st))
            (NewCounterVec (metric.Name m) (metric.Help m) (keys (rnd (length (collectors (reg st)))) (labelsOf moduleName m (heap st)))) of
       Some err \<Rightarrow>
         (Return (Some (RegisterMetricError (metric.Name m) err)),
          st\<lparr>heap := snd (injectModule moduleName m (heap st))\<rparr>)
     | None \<Rightarrow>
         withAdd (length (collectors (reg st))) m (labelsOf moduleName m (heap st))
           (st\<lparr>heap := snd (injectModule moduleName m (heap st)),
               reg := (reg st)\<lparr>collectors := collectors (reg st) @
                  [NewCounterVec (metric.Name m) (metric.Help m) (keys (rnd (length (collectors (reg st)))) (labelsOf moduleName m (heap st)))]\<rparr>,
               registeredCounters := (registeredCounters st)
                  (metric.Name m \<mapsto> length (collectors (reg st)))\<rparr>))"
  using assms
  by (simp add: registerMetric_def labelsOf_def Let_def Register_def split: prod.splits option.splits)

lemma registerMetric_other:
  assumes "metric.MetricType m = MetricTypeOther x"
  shows "registerMetric rnd moduleName m st =
    (Return None, st\<lparr>heap := snd (injectModule moduleName m (heap st))\<rparr>)"
  using assms by (simp add: registerMetric_def Let_def split: prod.splits)

lemma tablesOK_heap [simp]: "tablesOK n0 (st\<lparr>heap := h\<rparr>) = tablesOK n0 st"
  by (simp add: tablesOK_def)

lemma nth_update_fqName:
  "fqName c' = fqName (cs ! p) \<Longrightarrow> fqName (cs[p := c'] ! i) = fqName (cs ! i)"
  by (cases "i = p"; cases "p < length cs") (simp_all add: list_update_beyond)

lemma nth_update_kind:
  "kind c' = kind (cs ! p) \<Longrightarrow> kind (cs[p := c'] ! i) = kind (cs ! i)"
  by (cases "i = p"; cases "p < length cs") (simp_all add: list_update_beyond)

lemma tablesOK_update:
  assumes "tablesOK n0 st"
    and "fqName c' = fqName (collectors (reg st) ! p)"
    and "kind c' = kind (collectors (reg st) ! p)"
  shows "tablesOK n0 (st\<lparr>reg := (reg st)\<lparr>collectors := (collectors (reg st))[p := c']\<rparr>\<rparr>)"
  using assms(1) unfolding tablesOK_def
  by (simp add: nth_update_fqName [OF assms(2)] nth_update_kind [OF assms(3)])

lemma tablesOK_new_gauge:
  assumes ok: "tablesOK n0 st" and miss: "registeredGauges st name = None"
    and nm: "fqName c = name" and kd: "kind c = MetricTypeGauge"
  shows "tablesOK n0 (st\<lparr>reg := (reg st)\<lparr>collectors := collectors (reg st) @ [c]\<rparr>,
            registeredGauges := (registeredGauges st)(name \<mapsto> length (collectors (reg st)))\<rparr>)"
proof -
  let ?cs = "collectors (reg st)"
  from ok have n0: "n0 \<le> length ?cs"
    and g: "\<And>n p. registeredGauges st n = Some p \<Longrightarrow>
              n0 \<le> p \<and> p < length ?cs \<and> fqName (?cs ! p) = n \<and> kind (?cs ! p) = MetricTypeGauge"
    and k: "\<And>n p. registeredCounters st n = Some p \<Longrightarrow>
              n0 \<le> p \<and> p < length ?cs \<and> fqName (?cs ! p) = n \<and> kind (?cs ! p) = MetricTypeCounter"
    and b: "\<And>i. n0 \<le> i \<Longrightarrow> i < length ?cs \<Longrightarrow>
              (kind (?cs ! i) = MetricTypeGauge \<and> registeredGauges st (fqName (?cs ! i)) = Some i)
              \<or> (kind (?cs ! i) = MetricTypeCounter \<and> registeredCounters st (fqName (?cs ! i)) = Some i)"
    unfolding tablesOK_def by blast+
  let ?cs' = "?cs @ [c]"
  let ?g' = "(registeredGauges st)(name \<mapsto> length ?cs)"
  have G: "\<forall>n p. ?g' n = Some p \<longrightarrow>
      n0 \<le> p \<and> p < length ?cs' \<and> fqName (?cs' ! p) = n \<and> kind (?cs' ! p) = MetricTypeGauge"
  proof (intro allI impI)
    fix n p
    assume "?g' n = Some p"
    then have "(n = name \<and> p = length ?cs) \<or> (n \<noteq> name \<and> registeredGauges st n = Some p)"
      by (auto split: if_splits)
    then show "n0 \<le> p \<and> p < length ?cs' \<and> fqName (?cs' ! p) = n \<and> kind (?cs' ! p) = MetricTypeGauge"
      using n0 nm kd g [of n p] by (auto simp: nth_append)
  qed
  have K: "\<forall>n p. registeredCounters st n = Some p \<longrightarrow>
      n0 \<le> p \<and> p < length ?cs' \<and> fqName (?cs' ! p) = n \<and> kind (?cs' ! p) = MetricTypeCounter"
  proof (intro allI impI)
    fix n p
    assume "registeredCounters st n = Some p"
    then show "n0 \<le> p \<and> p < length ?cs' \<and> fqName (?cs' ! p) = n \<and> kind (?cs' ! p) = MetricTypeCounter"
      using k [of n p] by (auto simp: nth_append)
  qed
  have B: "\<forall>i. n0 \<le> i \<and> i < length ?cs' \<longrightarrow>
      (kind (?cs' ! i) = MetricTypeGauge \<and> ?g' (fqName (?cs' ! i)) = Some i)
      \<or> (kind (?cs' ! i) = MetricTypeCounter \<and> registeredCounters st (fqName (?cs' ! i)) = Some i)"
  proof (intro allI impI)
    fix i
    assume "n0 \<le> i \<and> i < length ?cs'"
    then have i: "n0 \<le> i" "i < length ?cs \<or> i = length ?cs" by auto
    show "(kind (?cs' ! i) = MetricTypeGauge \<and> ?g' (fqName (?cs' ! i)) = Some i)
      \<or> (kind (?cs' ! i) = MetricTypeCounter \<and> registeredCounters st (fqName (?cs' ! i)) = Some i)"
    proof (cases "i = length ?cs")
      case True
      then show ?thesis using nm kd by simp
    next
      case False
      with i have lt: "i < length ?cs" by simp
      from b [OF i(1) lt] miss show ?thesis using lt by (auto simp: nth_append)
    qed
  qed
  have n0': "n0 \<le> length ?cs'" using n0 by simp
  define st' where "st' = st\<lparr>reg := (reg st)\<lparr>collectors := ?cs'\<rparr>, registeredGauges := ?g'\<rparr>"
  have f: "collectors (reg st') = ?cs'" "registeredGauges st' = ?g'"
    "registeredCounters st' = registeredCounters st"
    by (simp_all add: st'_def)
  have "tablesOK n0 st'"
    unfolding tablesOK_def f using n0' G K B by blast
  then show ?thesis unfolding st'_def .
qed

lemma tablesOK_new_counter:
  assumes ok: "tablesOK n0 st" and miss: "registeredCounters st name = None"
    and nm: "fqName c = name" and kd: "kind c = MetricTypeCounter"
  shows "tablesOK n0 (st\<lparr>reg := (reg st)\<lparr>collectors := collectors (reg st) @ [c]\<rparr>,
            registeredCounters := (registeredCounters st)(name \<mapsto> length (collectors (reg st)))\<rparr>)"
proof -
  let ?cs = "collectors (reg st)"
  from ok have n0: "n0 \<le> length ?cs"
    and g: "\<And>n p. registeredCounters st n = Some p \<Longrightarrow>
              n0 \<le> p \<and> p < length ?cs \<and> fqName (?cs ! p) = n \<and> kind (?cs ! p) = MetricTypeCounter"
    and k: "\<And>n p. registeredGauges st n = Some p \<Longrightarrow>
              n0 \<le> p \<and> p < length ?cs \<and> fqName (?cs ! p) = n \<and> kind (?cs ! p) = MetricTypeGauge"
    and b: "\<And>i. n0 \<le> i \<Longrightarrow> i < length ?cs \<Longrightarrow>
              (kind (?cs ! i) = MetricTypeCounter \<and> registeredCounters st (fqName (?cs ! i)) = Some i)
              \<or> (kind (?cs ! i) = MetricTypeGauge \<and> registeredGauges st (fqName (?cs ! i)) = Some i)"
    unfolding tablesOK_def by blast+
  let ?cs' = "?cs @ [c]"
  let ?g' = "(registeredCounters st)(name \<mapsto> length ?cs)"
  have G: "\<forall>n p. ?g' n = Some p \<longrightarrow>
      n0 \<le> p \<and> p < length ?cs' \<and> fqName (?cs' ! p) = n \<and> kind (?cs' ! p) = MetricTypeCounter"
  proof (intro allI impI)
    fix n p
    assume "?g' n = Some p"
    then have "(n = name \<and> p = length ?cs) \<or> (n \<noteq> name \<and> registeredCounters st n = Some p)"
      by (auto split: if_splits)
    then show "n0 \<le> p \<and> p < length ?cs' \<and> fqName (?cs' ! p) = n \<and> kind (?cs' ! p) = MetricTypeCounter"
      using n0 nm kd g [of n p] by (auto simp: nth_append)
  qed
  have K: "\<forall>n p. registeredGauges st n = Some p \<longrightarrow>
      n0 \<le> p \<and> p < length ?cs' \<and> fqName (?cs' ! p) = n \<and> kind (?cs' ! p) = MetricTypeGauge"
  proof (intro allI impI)
    fix n p
    assume "registeredGauges st n = Some p"
    then show "n0 \<le> p \<and> p < length ?cs' \<and> fqName (?cs' ! p) = n \<and> kind (?cs' ! p) = MetricTypeGauge"
      using k [of n p] by (auto simp: nth_append)
  qed
  have B: "\<forall>i. n0 \<le> i \<and> i < length ?cs' \<longrightarrow>
      (kind (?cs' ! i) = MetricTypeCounter \<and> ?g' (fqName (?cs' ! i)) = Some i)
      \<or> (kind (?cs' ! i) = MetricTypeGauge \<and> registeredGauges st (fqName (?cs' ! i)) = Some i)"
  proof (intro allI impI)
    fix i
    assume "n0 \<le> i \<and> i < length ?cs'"
    then have i: "n0 \<le> i" "i < length ?cs \<or> i = length ?cs" by auto
    show "(kind (?cs' ! i) = MetricTypeCounter \<and> ?g' (fqName (?cs' ! i)) = Some i)
      \<or> (kind (?cs' ! i) = MetricTypeGauge \<and> registeredGauges st (fqName (?cs' ! i)) = Some i)"
    proof (cases "i = length ?cs")
      case True
      then show ?thesis using nm kd by simp
    next
      case False
      with i have lt: "i < length ?cs" by simp
      from b [OF i(1) lt] miss show ?thesis using lt by (auto simp: nth_append)
    qed
  qed
  have n0': "n0 \<le> length ?cs'" using n0 by simp
  define st' where "st' = st\<lparr>reg := (reg st)\<lparr>collectors := ?cs'\<rparr>, registeredCounters := ?g'\<rparr>"
  have f: "collectors (reg st') = ?cs'" "registeredCounters st' = ?g'"
    "registeredGauges st' = registeredGauges st"
    by (simp_all add: st'_def)
  have "tablesOK n0 st'"
    unfolding tablesOK_def f using n0' G K B by blast
  then show ?thesis unfolding st'_def .
qed

lemma gaugeSet_same [simp]: "fqName (gaugeSet v lvs c) = fqName c" "kind (gaugeSet v lvs c) = kind c"
  by (simp_all add: gaugeSet_def)

lemma withChild_same [simp]: "fqName (withChild lvs c) = fqName c" "kind (withChild lvs c) = kind c"
  by (simp_all add: withChild_def)

lemma childValues_withChild [simp]: "childValues (withChild lvs c) lvs = childValues c lvs"
  by (simp add: childValues_def withChild_def update_conv')

lemma gaugeSet_withChild [simp]: "gaugeSet v lvs (withChild lvs c) = gaugeSet v lvs c"
  by (simp add: gaugeSet_def withChild_def update_last)

lemma counterAdd_withChild:
  "\<not> float64_less_zero v \<Longrightarrow>
   counterAdd v lvs (withChild lvs c) =
     Inr (c\<lparr>children := AList.update lvs (childValues c lvs @ [v]) (children c)\<rparr>)"
  by (simp add: counterAdd_def withChild_def update_last childValues_def update_conv')

lemma withSet_cases:
  assumes "withSet p labels v st = (res, st')"
  shows "(\<exists>err. labelValues (collectors (reg st) ! p) labels = Inl err
            \<and> res = Panic (PanicError err) \<and> st' = st)
       \<or> (\<exists>lvs. labelValues (collectors (reg st) ! p) labels = Inr lvs \<and> res = Return None
            \<and> st' = st\<lparr>reg := (reg st)\<lparr>collectors :=
                  (collectors (reg st))[p := gaugeSet v lvs (collectors (reg st) ! p)]\<rparr>\<rparr>)"
proof (cases "labelValues (collectors (reg st) ! p) labels")
  case (Inl err)
  with assms show ?thesis by (simp add: withSet_def With_def)
next
  case (Inr lvs)
  with assms show ?thesis by (simp add: withSet_def With_def)
qed

lemma withAdd_cases:
  assumes "withAdd p m labels st = (res, st')"
  shows "(\<exists>err. labelValues (collectors (reg st) ! p) labels = Inl err
            \<and> res = Return (Some (MetricValueError (metric.Name m) (metric.MetricType m)
                (metric.Value m) labels err)) \<and> st' = st)
       \<or> (\<exists>lvs. labelValues (collectors (reg st) ! p) labels = Inr lvs
            \<and> float64_less_zero (metric.Value m)
            \<and> res = Return (Some (MetricValueError (metric.Name m) (metric.MetricType m)
                (metric.Value m) labels CounterCannotDecrease))
            \<and> st' = st\<lparr>reg := (reg st)\<lparr>collectors :=
                  (collectors (reg st))[p := withChild lvs (collectors (reg st) ! p)]\<rparr>\<rparr>)
       \<or> (\<exists>lvs. labelValues (collectors (reg st) ! p) labels = Inr lvs
            \<and> \<not> float64_less_zero (metric.Value m)
            \<and> res = Return None
            \<and> st' = st\<lparr>reg := (reg st)\<lparr>collectors := (collectors (reg st))[p :=
                  (collectors (reg st) ! p)\<lparr>children :=
                     AList.update lvs (childValues (collectors (reg st) ! p) lvs @ [metric.Value m])
                       (children (collectors (reg st) ! p))\<rparr>]\<rparr>\<rparr>)"
proof (cases "labelValues (collectors (reg st) ! p) labels")
  case (Inl err)
  with assms show ?thesis by (simp add: withAdd_def With_def)
next
  case (Inr lvs)
  show ?thesis
  proof (cases "float64_less_zero (metric.Value m)")
    case True
    with assms Inr show ?thesis by (simp add: withAdd_def With_def counterAdd_def)
  next
    case False
    with assms Inr show ?thesis by (simp add: withAdd_def With_def counterAdd_withChild)
  qed
qed

lemma withSet_tablesOK:
  assumes "tablesOK n0 st" and "withSet p labels v st = (res, st')"
  shows "tablesOK n0 st'"
  using withSet_cases [OF assms(2)] assms(1) tablesOK_update [OF assms(1), of _ p]
  by auto

lemma withAdd_tablesOK:
  assumes "tablesOK n0 st" and "withAdd p m labels st = (res, st')"
  shows "tablesOK n0 st'"
proof -
  from withAdd_cases [OF assms(2)]
  consider "st' = st"
    | c where "st' = st\<lparr>reg := (reg st)\<lparr>collectors := (collectors (reg st))[p := c]\<rparr>\<rparr>"
        "fqName c = fqName (collectors (reg st) ! p)" "kind c = kind (collectors (reg st) ! p)"
    by (elim disjE exE conjE) simp_all
  then show ?thesis
  proof cases
    case 1
    then show ?thesis using assms(1) by simp
  next
    case 2
    then show ?thesis using tablesOK_update [OF assms(1) 2(2,3)] by simp
  qed
qed

lemma registerMetric_tablesOK:
  assumes ok: "tablesOK n0 st" and step: "registerMetric rnd moduleName m st = (res, st')"
  shows "tablesOK n0 st'"
proof (cases "metric.MetricType m")
  case MetricTypeGauge
  let ?h = "snd (injectModule moduleName m (heap st))"
  let ?c = "NewGaugeVec (metric.Name m) (metric.Help m) (keys (rnd (length (collectors (reg st)))) (labelsOf moduleName m (heap st)))"
  show ?thesis
  proof (cases "registeredGauges st (metric.Name m)")
    case (Some p)
    from step have "withSet p (labelsOf moduleName m (heap st)) (metric.Value m) (st\<lparr>heap := ?h\<rparr>) = (res, st')"
      by (simp add: registerMetric_gauge_hit [OF MetricTypeGauge Some])
    then show ?thesis using withSet_tablesOK [of n0 "st\<lparr>heap := ?h\<rparr>"] ok by simp
  next
    case None
    note miss = registerMetric_gauge_miss [OF MetricTypeGauge None]
    show ?thesis
    proof (cases "check (reg st) (collectors (reg st)) ?c")
      case (Some err)
      with step miss have "st' = st\<lparr>heap := ?h\<rparr>" by simp
      then show ?thesis using ok by simp
    next
      case None': None
      have "tablesOK n0 ((st\<lparr>heap := ?h\<rparr>)\<lparr>reg := (reg (st\<lparr>heap := ?h\<rparr>))\<lparr>collectors :=
                collectors (reg (st\<lparr>heap := ?h\<rparr>)) @ [?c]\<rparr>,
              registeredGauges := (registeredGauges (st\<lparr>heap := ?h\<rparr>))
                (metric.Name m \<mapsto> length (collectors (reg (st\<lparr>heap := ?h\<rparr>))))\<rparr>)"
        by (rule tablesOK_new_gauge) (use ok None in \<open>simp_all add: NewGaugeVec_def\<close>)
      moreover from step miss None' have "withSet (length (collectors (reg st)))
          (labelsOf moduleName m (heap st)) (metric.Value m)
          (st\<lparr>heap := ?h, reg := (reg st)\<lparr>collectors := collectors (reg st) @ [?c]\<rparr>,
              registeredGauges := (registeredGauges st)(metric.Name m \<mapsto> length (collectors (reg st)))\<rparr>)
          = (res, st')"
        by simp
      ultimately show ?thesis using withSet_tablesOK by simp
    qed
  qed
next
  case MetricTypeCounter
  let ?h = "snd (injectModule moduleName m (heap st))"
  let ?c = "NewCounterVec (metric.Name m) (metric.Help m) (keys (rnd (length (collectors (reg st)))) (labelsOf moduleName m (heap st)))"
  show ?thesis
  proof (cases "registeredCounters st (metric.Name m)")
    case (Some p)
    from step have "withAdd p m (labelsOf moduleName m (heap st)) (st\<lparr>heap := ?h\<rparr>) = (res, st')"
      by (simp add: registerMetric_counter_hit [OF MetricTypeCounter Some])
    then show ?thesis using withAdd_tablesOK [of n0 "st\<lparr>heap := ?h\<rparr>"] ok by simp
  next
    case None
    note miss = registerMetric_counter_miss [OF MetricTypeCounter None]
    show ?thesis
    proof (cases "check (reg st) (collectors (reg st)) ?c")
      case (Some err)
      with step miss have "st' = st\<lparr>heap := ?h\<rparr>" by simp
      then show ?thesis using ok by simp
    next
      case None': None
      have "tablesOK n0 ((st\<lparr>heap := ?h\<rparr>)\<lparr>reg := (reg (st\<lparr>heap := ?h\<rparr>))\<lparr>collectors :=
                collectors (reg (st\<lparr>heap := ?h\<rparr>)) @ [?c]\<rparr>,
              registeredCounters := (registeredCounters (st\<lparr>heap := ?h\<rparr>))
                (metric.Name m \<mapsto> length (collectors (reg (st\<lparr>heap := ?h\<rparr>))))\<rparr>)"
        by (rule tablesOK_new_counter) (use ok None in \<open>simp_all add: NewCounterVec_def\<close>)
      moreover from step miss None' have "withAdd (length (collectors (reg st))) m
          (labelsOf moduleName m (heap st))
          (st\<lparr>heap := ?h, reg := (reg st)\<lparr>collectors := collectors (reg st) @ [?c]\<rparr>,
              registeredCounters := (registeredCounters st)(metric.Name m \<mapsto> length (collectors (reg st)))\<rparr>)
          = (res, st')"
        by simp
      ultimately show ?thesis using withAdd_tablesOK by simp
    qed
  qed
next
  case (MetricTypeOther x)
  with step have "st' = st\<lparr>heap := snd (injectModule moduleName m (heap st))\<rparr>"
    by (simp add: registerMetric_other)
  then show ?thesis using ok by simp
qed

lemma registerMetrics_loop_tablesOK:
  "tablesOK n0 st \<Longrightarrow> registerMetrics_loop rnd moduleName metrics st = (res, st') \<Longrightarrow> tablesOK n0 st'"
proof (induction metrics arbitrary: st)
  case Nil
  then show ?case by simp
next
  case (Cons m ms)
  obtain r1 st1 where s1: "registerMetric rnd moduleName m st = (r1, st1)"
    by (cases "registerMetric rnd moduleName m st")
  have ok1: "tablesOK n0 st1" using registerMetric_tablesOK [OF Cons.prems(1) s1] .
  show ?case
  proof (cases "r1 = Return None")
    case True
    with Cons.prems(2) s1 have "registerMetrics_loop rnd moduleName ms st1 = (res, st')" by simp
    then show ?thesis using Cons.IH [OF ok1] by simp
  next
    case False
    with Cons.prems(2) s1 have "st' = st1"
      by (cases r1) (auto split: option.splits)
    then show ?thesis using ok1 by simp
  qed
qed

lemma tablesOK_newState: "tablesOK (length (collectors r)) (newState r h)"
  by (simp add: tablesOK_def newState_def)

lemma tablesOK_distinct:
  assumes "tablesOK n0 st"
  shows "distinct (map (\<lambda>c. (fqName c, kind c)) (drop n0 (collectors (reg st))))"
proof -
  let ?cs = "collectors (reg st)"
  from assms have b: "\<And>i. n0 \<le> i \<Longrightarrow> i < length ?cs \<Longrightarrow>
              (kind (?cs ! i) = MetricTypeGauge \<and> registeredGauges st (fqName (?cs ! i)) = Some i)
              \<or> (kind (?cs ! i) = MetricTypeCounter \<and> registeredCounters st (fqName (?cs ! i)) = Some i)"
    unfolding tablesOK_def by blast
  show ?thesis
  proof (simp only: distinct_conv_nth length_map, intro allI impI)
    fix i j
    assume i: "i < length (drop n0 ?cs)" and j: "j < length (drop n0 ?cs)" and ne: "i \<noteq> j"
    have bi: "n0 \<le> n0 + i" "n0 + i < length ?cs" using i by simp_all
    have bj: "n0 \<le> n0 + j" "n0 + j < length ?cs" using j by simp_all
    have ni: "map (\<lambda>c. (fqName c, kind c)) (drop n0 ?cs) ! i = (fqName (?cs ! (n0 + i)), kind (?cs ! (n0 + i)))"
      using i by simp
    have nj: "map (\<lambda>c. (fqName c, kind c)) (drop n0 ?cs) ! j = (fqName (?cs ! (n0 + j)), kind (?cs ! (n0 + j)))"
      using j by simp
    show "map (\<lambda>c. (fqName c, kind c)) (drop n0 ?cs) ! i \<noteq> map (\<lambda>c. (fqName c, kind c)) (drop n0 ?cs) ! j"
    proof
      assume "map (\<lambda>c. (fqName c, kind c)) (drop n0 ?cs) ! i = map (\<lambda>c. (fqName c, kind c)) (drop n0 ?cs) ! j"
      then have e: "fqName (?cs ! (n0 + i)) = fqName (?cs ! (n0 + j))"
        "kind (?cs ! (n0 + i)) = kind (?cs ! (n0 + j))"
        using ni nj by simp_all
      from b [OF bi] have "n0 + i = n0 + j"
      proof
        assume gi: "kind (?cs ! (n0 + i)) = MetricTypeGauge
            \<and> registeredGauges st (fqName (?cs ! (n0 + i))) = Some (n0 + i)"
        then have "kind (?cs ! (n0 + j)) = MetricTypeGauge" using e(2) by (simp only:)
        with b [OF bj] have "registeredGauges st (fqName (?cs ! (n0 + j))) = Some (n0 + j)"
          by (metis MetricType.distinct(1))
        then have "registeredGauges st (fqName (?cs ! (n0 + i))) = Some (n0 + j)"
          by (simp only: e(1))
        with gi show ?thesis by (metis option.inject)
      next
        assume ki: "kind (?cs ! (n0 + i)) = MetricTypeCounter
            \<and> registeredCounters st (fqName (?cs ! (n0 + i))) = Some (n0 + i)"
        then have "kind (?cs ! (n0 + j)) = MetricTypeCounter" using e(2) by (simp only:)
        with b [OF bj] have "registeredCounters st (fqName (?cs ! (n0 + j))) = Some (n0 + j)"
          by (metis MetricType.distinct(1))
        then have "registeredCounters st (fqName (?cs ! (n0 + i))) = Some (n0 + j)"
          by (simp only: e(1))
        with ki show ?thesis by (metis option.inject)
      qed
      with ne show False by simp
    qed
  qed
qed

lemma withSet_tables:
  assumes "withSet p labels v st = (res, st')"
  shows "registeredGauges st' = registeredGauges st \<and> registeredCounters st' = registeredCounters st
       \<and> length (collectors (reg st')) = length (collectors (reg st))
       \<and> (\<forall>i. i \<noteq> p \<longrightarrow> collectors (reg st') ! i = collectors (reg st) ! i)"
  using withSet_cases [OF assms] by auto

lemma withAdd_tables:
  assumes "withAdd p m labels st = (res, st')"
  shows "registeredGauges st' = registeredGauges st \<and> registeredCounters st' = registeredCounters st
       \<and> length (collectors (reg st')) = length (collectors (reg st))
       \<and> (\<forall>i. i \<noteq> p \<longrightarrow> collectors (reg st') ! i = collectors (reg st) ! i)"
  using withAdd_cases [OF assms] by auto

lemma registerMetric_tables_mono:
  assumes step: "registerMetric rnd moduleName m st = (res, st')"
  shows "(registeredGauges st n = Some p \<longrightarrow> registeredGauges st' n = Some p)
       \<and> (registeredCounters st n = Some p \<longrightarrow> registeredCounters st' n = Some p)"
proof (cases "metric.MetricType m")
  case MetricTypeGauge
  show ?thesis
  proof (cases "registeredGauges st (metric.Name m)")
    case (Some q)
    from step show ?thesis
      unfolding registerMetric_gauge_hit [OF MetricTypeGauge Some]
      using withSet_tables by fastforce
  next
    case None
    from step show ?thesis
      unfolding registerMetric_gauge_miss [OF MetricTypeGauge None]
      using None by (auto split: option.splits dest!: withSet_tables)
  qed
next
  case MetricTypeCounter
  show ?thesis
  proof (cases "registeredCounters st (metric.Name m)")
    case (Some q)
    from step show ?thesis
      unfolding registerMetric_counter_hit [OF MetricTypeCounter Some]
      using withAdd_tables by fastforce
  next
    case None
    from step show ?thesis
      unfolding registerMetric_counter_miss [OF MetricTypeCounter None]
      using None by (auto split: option.splits dest!: withAdd_tables)
  qed
next
  case (MetricTypeOther x)
  with step show ?thesis by (auto simp: registerMetric_other)
qed

lemma registerMetric_success_registered:
  assumes step: "registerMetric rnd moduleName m st = (Return None, st')"
  shows "(metric.MetricType m = MetricTypeGauge \<longrightarrow> registeredGauges st' (metric.Name m) \<noteq> None)
       \<and> (metric.MetricType m = MetricTypeCounter \<longrightarrow> registeredCounters st' (metric.Name m) \<noteq> None)"
proof (cases "metric.MetricType m")
  case MetricTypeGauge
  show ?thesis
  proof (cases "registeredGauges st (metric.Name m)")
    case (Some q)
    then show ?thesis using registerMetric_tables_mono [OF step, of "metric.Name m" q] MetricTypeGauge
      by simp
  next
    case None
    from step show ?thesis
      unfolding registerMetric_gauge_miss [OF MetricTypeGauge None]
      using MetricTypeGauge by (auto split: option.splits dest!: withSet_tables)
  qed
next
  case MetricTypeCounter
  show ?thesis
  proof (cases "registeredCounters st (metric.Name m)")
    case (Some q)
    then show ?thesis using registerMetric_tables_mono [OF step, of "metric.Name m" q] MetricTypeCounter
      by simp
  next
    case None
    from step show ?thesis
      unfolding registerMetric_counter_miss [OF MetricTypeCounter None]
      using MetricTypeCounter by (auto split: option.splits dest!: withAdd_tables)
  qed
next
  case (MetricTypeOther x)
  then show ?thesis by simp
qed

lemma registerMetrics_loop_Cons_success:
  assumes "registerMetrics_loop rnd moduleName (m # ms) st = (Return None, st')"
  shows "\<exists>st1. registerMetric rnd moduleName m st = (Return None, st1)
       \<and> registerMetrics_loop rnd moduleName ms st1 = (Return None, st')"
proof -
  obtain r1 st1 where s1: "registerMetric rnd moduleName m st = (r1, st1)"
    by (cases "registerMetric rnd moduleName m st")
  with assms have "r1 = Return None"
    by (cases r1) (auto split: option.splits)
  with assms s1 show ?thesis by simp
qed

lemma registerMetrics_loop_tables_mono:
  "registerMetrics_loop rnd moduleName ms st = (res, st') \<Longrightarrow>
   (registeredGauges st n = Some p \<longrightarrow> registeredGauges st' n = Some p)
   \<and> (registeredCounters st n = Some p \<longrightarrow> registeredCounters st' n = Some p)"
proof (induction ms arbitrary: st)
  case Nil
  then show ?case by simp
next
  case (Cons m ms)
  obtain r1 st1 where s1: "registerMetric rnd moduleName m st = (r1, st1)"
    by (cases "registerMetric rnd moduleName m st")
  note mono1 = registerMetric_tables_mono [OF s1, of n p]
  show ?case
  proof (cases "r1 = Return None")
    case True
    with Cons.prems s1 have "registerMetrics_loop rnd moduleName ms st1 = (res, st')" by simp
    from Cons.IH [OF this] mono1 show ?thesis by simp
  next
    case False
    with Cons.prems s1 have "st' = st1"
      by (cases r1) (auto split: option.splits)
    then show ?thesis using mono1 by simp
  qed
qed

lemma registerMetrics_loop_registered:
  "registerMetrics_loop rnd moduleName pre st = (Return None, st') \<Longrightarrow> m0 \<in> set pre \<Longrightarrow>
   (metric.MetricType m0 = MetricTypeGauge \<longrightarrow> registeredGauges st' (metric.Name m0) \<noteq> None)
   \<and> (metric.MetricType m0 = MetricTypeCounter \<longrightarrow> registeredCounters st' (metric.Name m0) \<noteq> None)"
proof (induction pre arbitrary: st)
  case Nil
  then show ?case by simp
next
  case (Cons m ms)
  from registerMetrics_loop_Cons_success [OF Cons.prems(1)]
  obtain st1 where s1: "registerMetric rnd moduleName m st = (Return None, st1)"
    and rest: "registerMetrics_loop rnd moduleName ms st1 = (Return None, st')"
    by blast
  show ?case
  proof (cases "m0 = m")
    case True
    from registerMetric_success_registered [OF s1] True
    have "(metric.MetricType m0 = MetricTypeGauge \<longrightarrow> (\<exists>p. registeredGauges st1 (metric.Name m0) = Some p))
       \<and> (metric.MetricType m0 = MetricTypeCounter \<longrightarrow> (\<exists>p. registeredCounters st1 (metric.Name m0) = Some p))"
      by auto
    then show ?thesis using registerMetrics_loop_tables_mono [OF rest] by fastforce
  next
    case False
    with Cons.prems(2) have "m0 \<in> set ms" by simp
    from Cons.IH [OF rest this] show ?thesis .
  qed
qed

lemma registerMetric_tables_origin:
  assumes step: "registerMetric rnd moduleName m st = (res, st')"
  shows "(registeredGauges st' n = Some p \<longrightarrow>
            registeredGauges st n = Some p \<or> (metric.Name m = n \<and> metric.MetricType m = MetricTypeGauge))
       \<and> (registeredCounters st' n = Some p \<longrightarrow>
            registeredCounters st n = Some p \<or> (metric.Name m = n \<and> metric.MetricType m = MetricTypeCounter))"
proof (cases "metric.MetricType m")
  case MetricTypeGauge
  show ?thesis
  proof (cases "registeredGauges st (metric.Name m)")
    case (Some q)
    from step show ?thesis
      unfolding registerMetric_gauge_hit [OF MetricTypeGauge Some]
      using withSet_tables by fastforce
  next
    case None
    from step show ?thesis
      unfolding registerMetric_gauge_miss [OF MetricTypeGauge None]
      using MetricTypeGauge by (auto split: option.splits if_splits dest!: withSet_tables)
  qed
next
  case MetricTypeCounter
  show ?thesis
  proof (cases "registeredCounters st (metric.Name m)")
    case (Some q)
    from step show ?thesis
      unfolding registerMetric_counter_hit [OF MetricTypeCounter Some]
      using withAdd_tables by fastforce
  next
    case None
    from step show ?thesis
      unfolding registerMetric_counter_miss [OF MetricTypeCounter None]
      using MetricTypeCounter by (auto split: option.splits if_splits dest!: withAdd_tables)
  qed
next
  case (MetricTypeOther x)
  with step show ?thesis by (auto simp: registerMetric_other)
qed

lemma registerMetrics_loop_tables_origin:
  "registerMetrics_loop rnd moduleName ms st = (res, st') \<Longrightarrow>
   (registeredGauges st' n = Some p \<longrightarrow>
      registeredGauges st n = Some p
      \<or> (\<exists>m0 \<in> set ms. metric.Name m0 = n \<and> metric.MetricType m0 = MetricTypeGauge))
   \<and> (registeredCounters st' n = Some p \<longrightarrow>
      registeredCounters st n = Some p
      \<or> (\<exists>m0 \<in> set ms. metric.Name m0 = n \<and> metric.MetricType m0 = MetricTypeCounter))"
proof (induction ms arbitrary: st)
  case Nil
  then show ?case by simp
next
  case (Cons m ms)
  obtain r1 st1 where s1: "registerMetric rnd moduleName m st = (r1, st1)"
    by (cases "registerMetric rnd moduleName m st")
  note o1 = registerMetric_tables_origin [OF s1, of n p]
  show ?case
  proof (cases "r1 = Return None")
    case True
    with Cons.prems s1 have "registerMetrics_loop rnd moduleName ms st1 = (res, st')" by simp
    from Cons.IH [OF this] o1 show ?thesis by auto
  next
    case False
    with Cons.prems s1 have "st' = st1"
      by (cases r1) (auto split: option.splits)
    then show ?thesis using o1 by auto
  qed
qed

lemma registerMetrics_loop_append:
  "registerMetrics_loop rnd moduleName pre st0 = (Return None, st) \<Longrightarrow>
   registerMetrics_loop rnd moduleName (pre @ ms) st0 = registerMetrics_loop rnd moduleName ms st"
proof (induction pre arbitrary: st0)
  case Nil
  then show ?case by simp
next
  case (Cons a pre)
  from registerMetrics_loop_Cons_success [OF Cons.prems]
  obtain st1 where s1: "registerMetric rnd moduleName a st0 = (Return None, st1)"
    and rest: "registerMetrics_loop rnd moduleName pre st1 = (Return None, st)"
    by (elim exE conjE)
  show ?case using s1 Cons.IH [OF rest] by simp
qed

lemma registerMetrics_loop_single:
  "registerMetrics_loop rnd moduleName [m] st = registerMetric rnd moduleName m st"
  by (cases "registerMetric rnd moduleName m st") (auto split: outcome.splits option.splits)

lemma registerMetrics_run:
  assumes "registerMetrics rnd r moduleName ms h = (res, h', r')"
  shows "\<exists>st. registerMetrics_loop rnd moduleName ms (newState r h) = (res, st)
       \<and> heap st = h' \<and> reg st = r'"
  using assms by (auto simp: registerMetrics_def split: prod.splits)

lemma registerMetric_gauge_reuse:
  assumes ty: "metric.MetricType m = MetricTypeGauge"
    and hit: "registeredGauges st (metric.Name m) = Some p"
    and p: "p < length (collectors (reg st))"
    and step: "registerMetric rnd moduleName m st = (res, st')"
  shows "length (collectors (reg st')) = length (collectors (reg st))
     \<and> (\<forall>i. i \<noteq> p \<longrightarrow> collectors (reg st') ! i = collectors (reg st) ! i)
     \<and> (case labelValues (collectors (reg st) ! p) (labelsOf moduleName m (heap st)) of
          Inl e \<Rightarrow> res = Panic (PanicError e) \<and> collectors (reg st') ! p = collectors (reg st) ! p
        | Inr lvs \<Rightarrow> res = Return None
            \<and> collectors (reg st') ! p = (collectors (reg st) ! p)\<lparr>children :=
                 AList.update lvs [metric.Value m] (children (collectors (reg st) ! p))\<rparr>)"
proof -
  from step have w: "withSet p (labelsOf moduleName m (heap st)) (metric.Value m)
      (st\<lparr>heap := snd (injectModule moduleName m (heap st))\<rparr>) = (res, st')"
    by (simp add: registerMetric_gauge_hit [OF ty hit])
  from withSet_cases [OF w] p show ?thesis by (auto simp: gaugeSet_def)
qed

lemma registerMetric_counter_reuse:
  assumes ty: "metric.MetricType m = MetricTypeCounter"
    and hit: "registeredCounters st (metric.Name m) = Some p"
    and p: "p < length (collectors (reg st))"
    and step: "registerMetric rnd moduleName m st = (res, st')"
  shows "length (collectors (reg st')) = length (collectors (reg st))
     \<and> (\<forall>i. i \<noteq> p \<longrightarrow> collectors (reg st') ! i = collectors (reg st) ! i)
     \<and> (case labelValues (collectors (reg st) ! p) (labelsOf moduleName m (heap st)) of
          Inl e \<Rightarrow>
            res = Return (Some (MetricValueError (metric.Name m) MetricTypeCounter (metric.Value m)
                                  (labelsOf moduleName m (heap st)) e))
            \<and> collectors (reg st') ! p = collectors (reg st) ! p
        | Inr lvs \<Rightarrow>
            if float64_less_zero (metric.Value m)
            then res = Return (Some (MetricValueError (metric.Name m) MetricTypeCounter (metric.Value m)
                                  (labelsOf moduleName m (heap st)) CounterCannotDecrease))
              \<and> collectors (reg st') ! p = (collectors (reg st) ! p)\<lparr>children :=
                   AList.update lvs (childValues (collectors (reg st) ! p) lvs)
                     (children (collectors (reg st) ! p))\<rparr>
            else res = Return None
              \<and> collectors (reg st') ! p = (collectors (reg st) ! p)\<lparr>children :=
                   AList.update lvs (childValues (collectors (reg st) ! p) lvs @ [metric.Value m])
                     (children (collectors (reg st) ! p))\<rparr>)"
proof -
  from step have w: "withAdd p m (labelsOf moduleName m (heap st))
      (st\<lparr>heap := snd (injectModule moduleName m (heap st))\<rparr>) = (res, st')"
    by (simp add: registerMetric_counter_hit [OF ty hit])
  from withAdd_cases [OF w] p ty show ?thesis by (auto simp: withChild_def)
qed

lemma registerMetric_gauge_create:
  assumes ty: "metric.MetricType m = MetricTypeGauge"
    and miss: "registeredGauges st (metric.Name m) = None"
    and step: "registerMetric rnd moduleName m st = (res, st')"
  shows "case check (reg st) (collectors (reg st))
              (NewGaugeVec (metric.Name m) (metric.Help m)
                 (keys (rnd (length (collectors (reg st)))) (labelsOf moduleName m (heap st)))) of
           Some e \<Rightarrow> res = Return (Some (RegisterMetricError (metric.Name m) e))
             \<and> collectors (reg st') = collectors (reg st)
         | None \<Rightarrow> res = Return None
             \<and> collectors (reg st') = collectors (reg st) @
                 [\<lparr>fqName = metric.Name m, helpStr = metric.Help m, kind = MetricTypeGauge,
                   variableLabels = keys (rnd (length (collectors (reg st)))) (labelsOf moduleName m (heap st)),
                   children = [(map (\<lambda>k. case map_of (labelsOf moduleName m (heap st)) k of
                                          None \<Rightarrow> [] | Some x \<Rightarrow> x)
                                  (keys (rnd (length (collectors (reg st)))) (labelsOf moduleName m (heap st))),
                                [metric.Value m])]\<rparr>]"
proof -
  let ?K = "keys (rnd (length (collectors (reg st)))) (labelsOf moduleName m (heap st))"
  let ?c = "NewGaugeVec (metric.Name m) (metric.Help m) ?K"
  have lv: "labelValues ?c (labelsOf moduleName m (heap st)) =
      Inr (map (\<lambda>k. case map_of (labelsOf moduleName m (heap st)) k of None \<Rightarrow> [] | Some x \<Rightarrow> x) ?K)"
    by (rule labelValues_own_keys) (simp add: NewGaugeVec_def)
  note miss' = registerMetric_gauge_miss [OF ty miss]
  show ?thesis
  proof (cases "check (reg st) (collectors (reg st)) ?c")
    case (Some err)
    with step miss' show ?thesis by auto
  next
    case None
    with step miss' have w: "withSet (length (collectors (reg st)))
          (labelsOf moduleName m (heap st)) (metric.Value m)
          (st\<lparr>heap := snd (injectModule moduleName m (heap st)),
              reg := (reg st)\<lparr>collectors := collectors (reg st) @ [?c]\<rparr>,
              registeredGauges := (registeredGauges st)(metric.Name m \<mapsto> length (collectors (reg st)))\<rparr>)
          = (res, st')"
      by simp
    from withSet_cases [OF w] lv have "res = Return None
        \<and> collectors (reg st') = collectors (reg st) @ [gaugeSet (metric.Value m)
            (map (\<lambda>k. case map_of (labelsOf moduleName m (heap st)) k of None \<Rightarrow> [] | Some x \<Rightarrow> x) ?K) ?c]"
      by auto
    then show ?thesis using None by (simp add: NewGaugeVec_def gaugeSet_def)
  qed
qed

lemma registerMetric_counter_create:
  assumes ty: "metric.MetricType m = MetricTypeCounter"
    and miss: "registeredCounters st (metric.Name m) = None"
    and step: "registerMetric rnd moduleName m st = (res, st')"
  shows "case check (reg st) (collectors (reg st))
              (NewCounterVec (metric.Name m) (metric.Help m)
                 (keys (rnd (length (collectors (reg st)))) (labelsOf moduleName m (heap st)))) of
           Some e \<Rightarrow> res = Return (Some (RegisterMetricError (metric.Name m) e))
             \<and> collectors (reg st') = collectors (reg st)
         | None \<Rightarrow>
             res = (if float64_less_zero (metric.Value m)
                    then Return (Some (MetricValueError (metric.Name m) MetricTypeCounter (metric.Value m)
                                   (labelsOf moduleName m (heap st)) CounterCannotDecrease))
                    else Return None)
             \<and> collectors (reg st') = collectors (reg st) @
                 [\<lparr>fqName = metric.Name m, helpStr = metric.Help m, kind = MetricTypeCounter,
                   variableLabels = keys (rnd (length (collectors (reg st)))) (labelsOf moduleName m (heap st)),
                   children = [(map (\<lambda>k. case map_of (labelsOf moduleName m (heap st)) k of
                                          None \<Rightarrow> [] | Some x \<Rightarrow> x)
                                  (keys (rnd (length (collectors (reg st)))) (labelsOf moduleName m (heap st))),
                                if float64_less_zero (metric.Value m) then [] else [metric.Value m])]\<rparr>]"
proof -
  let ?K = "keys (rnd (length (collectors (reg st)))) (labelsOf moduleName m (heap st))"
  let ?c = "NewCounterVec (metric.Name m) (metric.Help m) ?K"
  have lv: "labelValues ?c (labelsOf moduleName m (heap st)) =
      Inr (map (\<lambda>k. case map_of (labelsOf moduleName m (heap st)) k of None \<Rightarrow> [] | Some x \<Rightarrow> x) ?K)"
    by (rule labelValues_own_keys) (simp add: NewCounterVec_def)
  note miss' = registerMetric_counter_miss [OF ty miss]
  show ?thesis
  proof (cases "check (reg st) (collectors (reg st)) ?c")
    case (Some err)
    with step miss' show ?thesis by auto
  next
    case None
    with step miss' have w: "withAdd (length (collectors (reg st))) m
          (labelsOf moduleName m (heap st))
          (st\<lparr>heap := snd (injectModule moduleName m (heap st)),
              reg := (reg st)\<lparr>collectors := collectors (reg st) @ [?c]\<rparr>,
              registeredCounters := (registeredCounters st)(metric.Name m \<mapsto> length (collectors (reg st)))\<rparr>)
          = (res, st')"
      by simp
    from withAdd_cases [OF w] lv ty show ?thesis
      using None by (auto simp: NewCounterVec_def withChild_def childValues_def)
  qed
qed

lemma registerMetrics_distinct:
  "distinct (map (\<lambda>c. (fqName c, kind c))
     (drop (length (collectors r)) (collectors (snd (snd (registerMetrics rnd r moduleName metrics h))))))"
proof -
  obtain res st where run: "registerMetrics_loop rnd moduleName metrics (newState r h) = (res, st)"
    by (cases "registerMetrics_loop rnd moduleName metrics (newState r h)")
  have "tablesOK (length (collectors r)) st"
    using registerMetrics_loop_tablesOK [OF tablesOK_newState run] .
  then show ?thesis using tablesOK_distinct run by (simp add: registerMetrics_def)
qed

lemma registerMetrics_table_gauges:
  assumes run: "registerMetrics_loop rnd moduleName pre (newState r h) = (Return None, st)"
  shows "(registeredGauges st n \<noteq> None)
       = (\<exists>m0 \<in> set pre. metric.Name m0 = n \<and> metric.MetricType m0 = MetricTypeGauge)"
proof
  assume "registeredGauges st n \<noteq> None"
  then obtain p where "registeredGauges st n = Some p" by auto
  with registerMetrics_loop_tables_origin [OF run, of n p]
  show "\<exists>m0 \<in> set pre. metric.Name m0 = n \<and> metric.MetricType m0 = MetricTypeGauge"
    by (simp add: newState_def)
next
  assume "\<exists>m0 \<in> set pre. metric.Name m0 = n \<and> metric.MetricType m0 = MetricTypeGauge"
  then obtain m0 where "m0 \<in> set pre" "metric.Name m0 = n" "metric.MetricType m0 = MetricTypeGauge"
    by (elim bexE conjE)
  with registerMetrics_loop_registered [OF run, of m0] show "registeredGauges st n \<noteq> None" by simp
qed

lemma registerMetrics_table_counters:
  assumes run: "registerMetrics_loop rnd moduleName pre (newState r h) = (Return None, st)"
  shows "(registeredCounters st n \<noteq> None)
       = (\<exists>m0 \<in> set pre. metric.Name m0 = n \<and> metric.MetricType m0 = MetricTypeCounter)"
proof
  assume "registeredCounters st n \<noteq> None"
  then obtain p where "registeredCounters st n = Some p" by auto
  with registerMetrics_loop_tables_origin [OF run, of n p]
  show "\<exists>m0 \<in> set pre. metric.Name m0 = n \<and> metric.MetricType m0 = MetricTypeCounter"
    by (simp add: newState_def)
next
  assume "\<exists>m0 \<in> set pre. metric.Name m0 = n \<and> metric.MetricType m0 = MetricTypeCounter"
  then obtain m0 where "m0 \<in> set pre" "metric.Name m0 = n" "metric.MetricType m0 = MetricTypeCounter"
    by (elim bexE conjE)
  with registerMetrics_loop_registered [OF run, of m0] show "registeredCounters st n \<noteq> None" by simp
qed

lemma registerMetrics_reuse_or_create:
  assumes run: "registerMetrics_loop rnd moduleName pre (newState r h) = (Return None, st)"
    and step: "registerMetric rnd moduleName m st = (res, st')"
    and ty: "metric.MetricType m = MetricTypeGauge \<or> metric.MetricType m = MetricTypeCounter"
  shows "if \<exists>m0 \<in> set pre. metric.Name m0 = metric.Name m \<and> metric.MetricType m0 = metric.MetricType m
         then \<exists>p. length (collectors r) \<le> p \<and> p < length (collectors (reg st))
                \<and> fqName (collectors (reg st) ! p) = metric.Name m
                \<and> kind (collectors (reg st) ! p) = metric.MetricType m
                \<and> length (collectors (reg st')) = length (collectors (reg st))
                \<and> (\<forall>i. i \<noteq> p \<longrightarrow> collectors (reg st') ! i = collectors (reg st) ! i)
                \<and> (case labelValues (collectors (reg st) ! p) (labelsOf moduleName m (heap st)) of
                     Inl e \<Rightarrow>
                       collectors (reg st') ! p = collectors (reg st) ! p
                       \<and> (metric.MetricType m = MetricTypeCounter \<longrightarrow>
                            res = Return (Some (MetricValueError (metric.Name m) MetricTypeCounter
                                    (metric.Value m) (labelsOf moduleName m (heap st)) e)))
                   | Inr lvs \<Rightarrow>
                       collectors (reg st') ! p = (collectors (reg st) ! p)\<lparr>children :=
                          AList.update lvs
                            (if metric.MetricType m = MetricTypeGauge then [metric.Value m]
                             else if float64_less_zero (metric.Value m)
                             then childValues (collectors (reg st) ! p) lvs
                             else childValues (collectors (reg st) ! p) lvs @ [metric.Value m])
                            (children (collectors (reg st) ! p))\<rparr>
                       \<and> res = (if metric.MetricType m = MetricTypeCounter
                                    \<and> float64_less_zero (metric.Value m)
                                 then Return (Some (MetricValueError (metric.Name m) MetricTypeCounter
                                        (metric.Value m) (labelsOf moduleName m (heap st))
                                        CounterCannotDecrease))
                                 else Return None))
         else (case check (reg st) (collectors (reg st))
                      \<lparr>fqName = metric.Name m, helpStr = metric.Help m, kind = metric.MetricType m,
                        variableLabels = keys (rnd (length (collectors (reg st))))
                                           (labelsOf moduleName m (heap st)),
                        children = []\<rparr> of
                 Some e \<Rightarrow> res = Return (Some (RegisterMetricError (metric.Name m) e))
                   \<and> collectors (reg st') = collectors (reg st)
               | None \<Rightarrow>
                   res = (if metric.MetricType m = MetricTypeCounter
                             \<and> float64_less_zero (metric.Value m)
                          then Return (Some (MetricValueError (metric.Name m) MetricTypeCounter
                                 (metric.Value m) (labelsOf moduleName m (heap st))
                                 CounterCannotDecrease))
                          else Return None)
                   \<and> collectors (reg st') = collectors (reg st) @
                       [\<lparr>fqName = metric.Name m, helpStr = metric.Help m, kind = metric.MetricType m,
                         variableLabels = keys (rnd (length (collectors (reg st))))
                                            (labelsOf moduleName m (heap st)),
                         children =
                           [(map (\<lambda>k. case map_of (labelsOf moduleName m (heap st)) k of
                                        None \<Rightarrow> [] | Some x \<Rightarrow> x)
                               (keys (rnd (length (collectors (reg st))))
                                  (labelsOf moduleName m (heap st))),
                             if metric.MetricType m = MetricTypeCounter
                                \<and> float64_less_zero (metric.Value m)
                             then [] else [metric.Value m])]\<rparr>])"
proof -
  have ok: "tablesOK (length (collectors r)) st"
    using registerMetrics_loop_tablesOK [OF tablesOK_newState run] .
  show ?thesis
  proof (cases "\<exists>m0 \<in> set pre. metric.Name m0 = metric.Name m \<and> metric.MetricType m0 = metric.MetricType m")
    case True
    from ty show ?thesis
    proof
      assume g: "metric.MetricType m = MetricTypeGauge"
      from True have ex: "\<exists>m0 \<in> set pre. metric.Name m0 = metric.Name m
          \<and> metric.MetricType m0 = MetricTypeGauge"
        unfolding g .
      have "registeredGauges st (metric.Name m) \<noteq> None"
        unfolding registerMetrics_table_gauges [OF run] by (rule ex)
      then obtain p where hit: "registeredGauges st (metric.Name m) = Some p" by auto
      with ok have pp: "length (collectors r) \<le> p" "p < length (collectors (reg st))"
        "fqName (collectors (reg st) ! p) = metric.Name m"
        "kind (collectors (reg st) ! p) = MetricTypeGauge"
        unfolding tablesOK_def by blast+
      note reuse = registerMetric_gauge_reuse [OF g hit pp(2) step]
      show ?thesis
        apply (simp only: True if_True)
        apply (rule exI [of _ p])
        using reuse pp g apply (simp split: sum.splits)
        done
    next
      assume k: "metric.MetricType m = MetricTypeCounter"
      from True have ex: "\<exists>m0 \<in> set pre. metric.Name m0 = metric.Name m
          \<and> metric.MetricType m0 = MetricTypeCounter"
        unfolding k .
      have "registeredCounters st (metric.Name m) \<noteq> None"
        unfolding registerMetrics_table_counters [OF run] by (rule ex)
      then obtain p where hit: "registeredCounters st (metric.Name m) = Some p" by auto
      with ok have pp: "length (collectors r) \<le> p" "p < length (collectors (reg st))"
        "fqName (collectors (reg st) ! p) = metric.Name m"
        "kind (collectors (reg st) ! p) = MetricTypeCounter"
        unfolding tablesOK_def by blast+
      note reuse = registerMetric_counter_reuse [OF k hit pp(2) step]
      show ?thesis
        apply (simp only: True if_True)
        apply (rule exI [of _ p])
        using reuse pp k apply (simp split: sum.splits)
        done
    qed
  next
    case False
    from ty show ?thesis
    proof
      assume g: "metric.MetricType m = MetricTypeGauge"
      from False have nex: "\<not> (\<exists>m0 \<in> set pre. metric.Name m0 = metric.Name m
          \<and> metric.MetricType m0 = MetricTypeGauge)"
        unfolding g .
      have "\<not> registeredGauges st (metric.Name m) \<noteq> None"
        unfolding registerMetrics_table_gauges [OF run] by (rule nex)
      then have miss: "registeredGauges st (metric.Name m) = None" by simp
      note create = registerMetric_gauge_create [OF g miss step]
      show ?thesis
        apply (simp only: False if_False)
        using create g apply (simp add: NewGaugeVec_def split: option.splits)
        done
    next
      assume k: "metric.MetricType m = MetricTypeCounter"
      from False have nex: "\<not> (\<exists>m0 \<in> set pre. metric.Name m0 = metric.Name m
          \<and> metric.MetricType m0 = MetricTypeCounter)"
        unfolding k .
      have "\<not> registeredCounters st (metric.Name m) \<noteq> None"
        unfolding registerMetrics_table_counters [OF run] by (rule nex)
      then have miss: "registeredCounters st (metric.Name m) = None" by simp
      note create = registerMetric_counter_create [OF k miss step]
      show ?thesis
        apply (simp only: False if_False)
        using create k apply (simp add: NewCounterVec_def split: option.splits)
        done
    qed
  qed
qed

lemma registerMetrics_loop_error:
  "fst (registerMetric rnd moduleName m st) = Return (Some err)
   \<Longrightarrow> fst (registerMetrics_loop rnd moduleName (m # metrics) st) = Return (Some err)"
  by (cases "registerMetric rnd moduleName m st") (simp split: outcome.splits option.splits)

lemma registerMetrics_negative_counter:
  assumes run: "registerMetrics_loop rnd moduleName pre (newState r h) = (Return None, st)"
    and ty: "metric.MetricType m = MetricTypeCounter"
    and neg: "float64_less_zero (metric.Value m)"
  shows "\<exists>err. fst (registerMetrics_loop rnd moduleName (pre @ m # post) (newState r h))
                 = Return (Some err)
     \<and> (if \<exists>m0 \<in> set pre. metric.Name m0 = metric.Name m \<and> metric.MetricType m0 = MetricTypeCounter
        then \<exists>inner. err = MetricValueError (metric.Name m) MetricTypeCounter (metric.Value m)
                              (labelsOf moduleName m (heap st)) inner
        else case check (reg st) (collectors (reg st))
                    (NewCounterVec (metric.Name m) (metric.Help m)
                       (keys (rnd (length (collectors (reg st)))) (labelsOf moduleName m (heap st)))) of
               None \<Rightarrow> err = MetricValueError (metric.Name m) MetricTypeCounter (metric.Value m)
                              (labelsOf moduleName m (heap st)) CounterCannotDecrease
             | Some e \<Rightarrow> err = RegisterMetricError (metric.Name m) e)"
proof -
  obtain res st' where step: "registerMetric rnd moduleName m st = (res, st')"
    by (cases "registerMetric rnd moduleName m st")
  have "\<exists>err. res = Return (Some err)
     \<and> (if \<exists>m0 \<in> set pre. metric.Name m0 = metric.Name m \<and> metric.MetricType m0 = MetricTypeCounter
        then \<exists>inner. err = MetricValueError (metric.Name m) MetricTypeCounter (metric.Value m)
                              (labelsOf moduleName m (heap st)) inner
        else case check (reg st) (collectors (reg st))
                    (NewCounterVec (metric.Name m) (metric.Help m)
                       (keys (rnd (length (collectors (reg st)))) (labelsOf moduleName m (heap st)))) of
               None \<Rightarrow> err = MetricValueError (metric.Name m) MetricTypeCounter (metric.Value m)
                              (labelsOf moduleName m (heap st)) CounterCannotDecrease
             | Some e \<Rightarrow> err = RegisterMetricError (metric.Name m) e)"
  proof (cases "\<exists>m0 \<in> set pre. metric.Name m0 = metric.Name m \<and> metric.MetricType m0 = MetricTypeCounter")
    case True
    have "registeredCounters st (metric.Name m) \<noteq> None"
      unfolding registerMetrics_table_counters [OF run] by (rule True)
    then obtain p where hit: "registeredCounters st (metric.Name m) = Some p" by auto
    from step have w: "withAdd p m (labelsOf moduleName m (heap st))
        (st\<lparr>heap := snd (injectModule moduleName m (heap st))\<rparr>) = (res, st')"
      by (simp add: registerMetric_counter_hit [OF ty hit])
    from withAdd_cases [OF w] neg ty
    have "\<exists>inner. res = Return (Some (MetricValueError (metric.Name m) MetricTypeCounter
              (metric.Value m) (labelsOf moduleName m (heap st)) inner))"
      by auto
    then obtain inner where "res = Return (Some (MetricValueError (metric.Name m) MetricTypeCounter
              (metric.Value m) (labelsOf moduleName m (heap st)) inner))" ..
    then show ?thesis
      by (simp only: True if_True)
        (rule exI [of _ "MetricValueError (metric.Name m) MetricTypeCounter
              (metric.Value m) (labelsOf moduleName m (heap st)) inner"], simp)
  next
    case False
    have "\<not> registeredCounters st (metric.Name m) \<noteq> None"
      unfolding registerMetrics_table_counters [OF run] by (rule False)
    then have miss: "registeredCounters st (metric.Name m) = None" by simp
    note create = registerMetric_counter_create [OF ty miss step]
    show ?thesis
    proof (cases "check (reg st) (collectors (reg st))
                    (NewCounterVec (metric.Name m) (metric.Help m)
                       (keys (rnd (length (collectors (reg st)))) (labelsOf moduleName m (heap st))))")
      case None
      with create neg show ?thesis by (simp only: False if_False) simp
    next
      case (Some e)
      with create show ?thesis by (simp only: False if_False) simp
    qed
  qed
  then obtain err where res: "res = Return (Some err)"
    and shape: "if \<exists>m0 \<in> set pre. metric.Name m0 = metric.Name m \<and> metric.MetricType m0 = MetricTypeCounter
        then \<exists>inner. err = MetricValueError (metric.Name m) MetricTypeCounter (metric.Value m)
                              (labelsOf moduleName m (heap st)) inner
        else case check (reg st) (collectors (reg st))
                    (NewCounterVec (metric.Name m) (metric.Help m)
                       (keys (rnd (length (collectors (reg st)))) (labelsOf moduleName m (heap st)))) of
               None \<Rightarrow> err = MetricValueError (metric.Name m) MetricTypeCounter (metric.Value m)
                              (labelsOf moduleName m (heap st)) CounterCannotDecrease
             | Some e \<Rightarrow> err = RegisterMetricError (metric.Name m) e"
    by (elim exE conjE)
  from step res have "fst (registerMetric rnd moduleName m st) = Return (Some err)" by simp
  then have "fst (registerMetrics_loop rnd moduleName (m # post) st) = Return (Some err)"
    by (rule registerMetrics_loop_error)
  then have "fst (registerMetrics_loop rnd moduleName (pre @ m # post) (newState r h)) = Return (Some err)"
    by (simp only: registerMetrics_loop_append [OF run])
  with shape show ?thesis by (intro exI [of _ err] conjI)
qed

lemma fst_registerMetrics:
  "fst (registerMetrics rnd r moduleName metrics h)
     = fst (registerMetrics_loop rnd moduleName metrics (newState r h))"
  by (simp add: registerMetrics_def split: prod.splits)

text \<open>
  Claim C4, as amended: let the metrics before a counter metric whose value is below zero
  be registered without an error. Then \<open>registerMetrics\<close> returns an error and does not
  panic, whatever metrics follow. When an earlier metric is a counter of the same name, or
  when the registry accepts the counter's new collector, the error carries the metric's
  name, its kind, its value and its labels, the module label among them, and wraps the
  error the library panicked with. When no earlier metric is a counter of that name and
  the registry refuses the new collector, the error carries the metric's name and the
  registry's error only.
\<close>

theorem C4_negative_counter:
  assumes "metric.MetricType m = MetricTypeCounter" and "float64_less_zero (metric.Value m)"
    and "registerMetrics rnd r moduleName pre h = (Return None, h1, r1)"
  shows "\<exists>err. fst (registerMetrics rnd r moduleName (pre @ m # post) h) = Return (Some err)
     \<and> (if \<exists>m0 \<in> set pre. metric.Name m0 = metric.Name m \<and> metric.MetricType m0 = MetricTypeCounter
        then \<exists>inner. err = MetricValueError (metric.Name m) MetricTypeCounter (metric.Value m)
                              (labelsOf moduleName m h1) inner
        else case check r1 (collectors r1)
                    (NewCounterVec (metric.Name m) (metric.Help m)
                       (keys (rnd (length (collectors r1))) (labelsOf moduleName m h1))) of
               None \<Rightarrow> err = MetricValueError (metric.Name m) MetricTypeCounter (metric.Value m)
                              (labelsOf moduleName m h1) CounterCannotDecrease
             | Some e \<Rightarrow> err = RegisterMetricError (metric.Name m) e)
     \<and> map_of (labelsOf moduleName m h1) ''module'' = Some moduleName"
proof -
  from registerMetrics_run [OF assms(3)]
  obtain st where run: "registerMetrics_loop rnd moduleName pre (newState r h) = (Return None, st)"
    and hs: "heap st = h1" "reg st = r1"
    by (elim exE conjE)
  note main = registerMetrics_negative_counter [OF run assms(1,2), of post, unfolded hs,
      folded fst_registerMetrics]
  from main obtain err where
    a: "fst (registerMetrics rnd r moduleName (pre @ m # post) h) = Return (Some err)"
    and b: "if \<exists>m0 \<in> set pre. metric.Name m0 = metric.Name m \<and> metric.MetricType m0 = MetricTypeCounter
        then \<exists>inner. err = MetricValueError (metric.Name m) MetricTypeCounter (metric.Value m)
                              (labelsOf moduleName m h1) inner
        else case check r1 (collectors r1)
                    (NewCounterVec (metric.Name m) (metric.Help m)
                       (keys (rnd (length (collectors r1))) (labelsOf moduleName m h1))) of
               None \<Rightarrow> err = MetricValueError (metric.Name m) MetricTypeCounter (metric.Value m)
                              (labelsOf moduleName m h1) CounterCannotDecrease
             | Some e \<Rightarrow> err = RegisterMetricError (metric.Name m) e"
    by (elim exE conjE)
  show ?thesis
    by (intro exI [of _ err] conjI a b labelsOf_module)
qed

lemmas registry_eval =
  registerMetrics_def registerMetric_def injectModule_def newMap_def NewRegistry_def emptyStore_def
  newState_def counterMetric_def gaugeMetric_def Register_def NewCounterVec_def NewGaugeVec_def
  keys_def withAdd_def withSet_def With_def withChild_def labelValues_def counterAdd_def
  gaugeSet_def childValues_def labelsOf_def Let_def exampleRegistry_def

text \<open>
  Claim C4 at an example: a gauge, a counter of value -1 and a second gauge in a new
  registry. The error names the counter, its kind, its value and its labels.
\<close>

theorem C4_negative_counter_witness:
  "fst (registerMetrics (\<lambda>_. []) exampleRegistry ''mod''
          [gaugeMetric ''g'' 1, counterMetric ''c'' (- 1), gaugeMetric ''g'' 2] emptyStore)
     = Return (Some (MetricValueError ''c'' MetricTypeCounter (Float64FromInt (- 1))
                       [(''module'', ''mod'')] CounterCannotDecrease))"
proof -
  have ty: "metric.MetricType (counterMetric ''c'' (- 1)) = MetricTypeCounter"
    and neg: "float64_less_zero (metric.Value (counterMetric ''c'' (- 1)))"
    by (simp_all add: counterMetric_def)
  have "fst (registerMetrics (\<lambda>_. []) exampleRegistry ''mod'' [gaugeMetric ''g'' 1] emptyStore)
      = Return None"
    by (simp add: registry_eval)
  then have pre: "registerMetrics (\<lambda>_. []) exampleRegistry ''mod'' [gaugeMetric ''g'' 1] emptyStore
      = (Return None,
         fst (snd (registerMetrics (\<lambda>_. []) exampleRegistry ''mod'' [gaugeMetric ''g'' 1] emptyStore)),
         snd (snd (registerMetrics (\<lambda>_. []) exampleRegistry ''mod'' [gaugeMetric ''g'' 1] emptyStore)))"
    by (simp add: prod_eq_iff)
  from C4_negative_counter [OF ty neg pre, of "[gaugeMetric ''g'' 2]"]
  show ?thesis
    by (simp add: registry_eval)
qed

text \<open>
  Claim C4 as stated fails on a counter of value -1 that follows a gauge of the same name:
  the registry refuses the counter's collector, and the error returned carries the name
  and the registry's error, not the kind, the value or the labels.
\<close>

theorem C4_counterexample:
  "metric.MetricType (counterMetric ''x'' (- 1)) = MetricTypeCounter
   \<and> float64_less_zero (metric.Value (counterMetric ''x'' (- 1)))
   \<and> registerMetrics (\<lambda>_. []) (NewRegistry (\<lambda>_. True)) ''mod''
        [gaugeMetric ''x'' 1, counterMetric ''x'' (- 1)] emptyStore
     = (Return (Some (RegisterMetricError ''x'' (AlreadyRegistered ''x''))),
        \<lparr>cells = (\<lambda>_. [])(0 := [(''module'', ''mod'')], 1 := [(''module'', ''mod'')]), free = 2\<rparr>,
        \<lparr>check = check (NewRegistry (\<lambda>_. True)),
          collectors = [\<lparr>fqName = ''x'', helpStr = ''h'', kind = MetricTypeGauge,
                          variableLabels = [''module''],
                          children = [([''mod''], [Float64FromInt 1])]\<rparr>]\<rparr>)"
  by (simp add: registry_eval)

text \<open>
  Claim C9, as amended: the collectors one call of \<open>registerMetrics\<close> adds to the registry
  have pairwise different pairs of name and kind. Let the metrics before a gauge or counter
  metric be registered without an error. When one of them has its name and kind, no
  collector is added and no other collector changes; the metric goes to the collector of
  that name and kind which the call created. If its label names are those of the
  collector's schema, a gauge's value is set, a counter's value that is not below zero is
  appended to the values added, and a counter's value below zero is refused with the error
  that carries name, kind, value and labels, the values added staying as they are. If its
  label names are not those of the schema the collector stays as it is, and for a counter
  the result is that error with the library's complaint. When none of the metrics before
  has its name and kind, a collector with the metric's name, help, kind and label names, in
  the order the runtime picks, is offered to the registry. If the registry refuses it, the
  result is the error that carries the metric's name and the registry's error, and no
  collector is added. If the registry accepts it, it is added as the last collector with
  one child, to which the value is applied as above.
\<close>

theorem C9_one_collector_per_name_and_kind:
  assumes "registerMetrics rnd r moduleName pre h = (Return None, h1, r1)"
    and "registerMetrics rnd r moduleName (pre @ [m]) h = (res, h2, r2)"
    and "metric.MetricType m = MetricTypeGauge \<or> metric.MetricType m = MetricTypeCounter"
  shows "distinct (map (\<lambda>c. (fqName c, kind c))
           (drop (length (collectors r)) (collectors (snd (snd (registerMetrics rnd r moduleName metrics h))))))
     \<and> set (keys (rnd (length (collectors r1))) (labelsOf moduleName m h1))
         = fst ` set (labelsOf moduleName m h1)
     \<and> (if \<exists>m0 \<in> set pre. metric.Name m0 = metric.Name m \<and> metric.MetricType m0 = metric.MetricType m
              then \<exists>p. length (collectors r) \<le> p \<and> p < length (collectors r1)
                     \<and> fqName (collectors r1 ! p) = metric.Name m
                     \<and> kind (collectors r1 ! p) = metric.MetricType m
                     \<and> length (collectors r2) = length (collectors r1)
                     \<and> (\<forall>i. i \<noteq> p \<longrightarrow> collectors r2 ! i = collectors r1 ! i)
                     \<and> (case labelValues (collectors r1 ! p) (labelsOf moduleName m h1) of
                          Inl e \<Rightarrow>
                            collectors r2 ! p = collectors r1 ! p
                            \<and> (metric.MetricType m = MetricTypeCounter \<longrightarrow>
                                 res = Return (Some (MetricValueError (metric.Name m) MetricTypeCounter
                                         (metric.Value m) (labelsOf moduleName m h1) e)))
                        | Inr lvs \<Rightarrow>
                            collectors r2 ! p = (collectors r1 ! p)\<lparr>children :=
                               AList.update lvs
                                 (if metric.MetricType m = MetricTypeGauge then [metric.Value m]
                                  else if float64_less_zero (metric.Value m)
                                  then childValues (collectors r1 ! p) lvs
                                  else childValues (collectors r1 ! p) lvs @ [metric.Value m])
                                 (children (collectors r1 ! p))\<rparr>
                            \<and> res = (if metric.MetricType m = MetricTypeCounter
                                         \<and> float64_less_zero (metric.Value m)
                                      then Return (Some (MetricValueError (metric.Name m) MetricTypeCounter
                                             (metric.Value m) (labelsOf moduleName m h1)
                                             CounterCannotDecrease))
                                      else Return None))
              else (case check r1 (collectors r1)
                           \<lparr>fqName = metric.Name m, helpStr = metric.Help m, kind = metric.MetricType m,
                             variableLabels = keys (rnd (length (collectors r1)))
                                                (labelsOf moduleName m h1),
                             children = []\<rparr> of
                      Some e \<Rightarrow> res = Return (Some (RegisterMetricError (metric.Name m) e))
                        \<and> collectors r2 = collectors r1
                    | None \<Rightarrow>
                        res = (if metric.MetricType m = MetricTypeCounter
                                  \<and> float64_less_zero (metric.Value m)
                               then Return (Some (MetricValueError (metric.Name m) MetricTypeCounter
                                      (metric.Value m) (labelsOf moduleName m h1)
                                      CounterCannotDecrease))
                               else Return None)
                        \<and> collectors r2 = collectors r1 @
                            [\<lparr>fqName = metric.Name m, helpStr = metric.Help m, kind = metric.MetricType m,
                              variableLabels = keys (rnd (length (collectors r1)))
                                                 (labelsOf moduleName m h1),
                              children =
                                [(map (\<lambda>k. case map_of (labelsOf moduleName m h1) k of
                                             None \<Rightarrow> [] | Some x \<Rightarrow> x)
                                    (keys (rnd (length (collectors r1)))
                                       (labelsOf moduleName m h1)),
                                  if metric.MetricType m = MetricTypeCounter
                                     \<and> float64_less_zero (metric.Value m)
                                  then [] else [metric.Value m])]\<rparr>]))"
proof -
  from registerMetrics_run [OF assms(1)]
  obtain st where run: "registerMetrics_loop rnd moduleName pre (newState r h) = (Return None, st)"
    and hs: "heap st = h1" "reg st = r1"
    by (elim exE conjE)
  from registerMetrics_run [OF assms(2)]
  obtain st' where run': "registerMetrics_loop rnd moduleName (pre @ [m]) (newState r h) = (res, st')"
    and hs': "reg st' = r2"
    by (elim exE conjE)
  from run' have step: "registerMetric rnd moduleName m st = (res, st')"
    by (simp only: registerMetrics_loop_append [OF run] registerMetrics_loop_single)
  note main = registerMetrics_reuse_or_create [OF run step assms(3), unfolded hs hs']
  show ?thesis
    by (intro conjI registerMetrics_distinct set_keys main)
qed

text \<open>
  Claim C9 at an example: a gauge and two counters of one name in a new registry. The
  second counter is added on the collector the first created.
\<close>

theorem C9_one_collector_per_name_and_kind_witness:
  "fst (registerMetrics (\<lambda>_. []) exampleRegistry ''mod''
          [gaugeMetric ''g'' 1, counterMetric ''c'' 1, counterMetric ''c'' 2] emptyStore) = Return None
   \<and> length (collectors (snd (snd (registerMetrics (\<lambda>_. []) exampleRegistry ''mod''
          [gaugeMetric ''g'' 1, counterMetric ''c'' 1, counterMetric ''c'' 2] emptyStore)))) = 2
   \<and> collectors (snd (snd (registerMetrics (\<lambda>_. []) exampleRegistry ''mod''
          [gaugeMetric ''g'' 1, counterMetric ''c'' 1, counterMetric ''c'' 2] emptyStore))) ! 0
       = \<lparr>fqName = ''g'', helpStr = ''h'', kind = MetricTypeGauge, variableLabels = [''module''],
           children = [([''mod''], [Float64FromInt 1])]\<rparr>
   \<and> collectors (snd (snd (registerMetrics (\<lambda>_. []) exampleRegistry ''mod''
          [gaugeMetric ''g'' 1, counterMetric ''c'' 1, counterMetric ''c'' 2] emptyStore))) ! 1
       = \<lparr>fqName = ''c'', helpStr = ''h'', kind = MetricTypeCounter, variableLabels = [''module''],
           children = [([''mod''], [Float64FromInt 1, Float64FromInt 2])]\<rparr>"
proof -
  let ?pre = "[gaugeMetric ''g'' 1, counterMetric ''c'' 1]"
  let ?m = "counterMetric ''c'' 2"
  let ?h1 = "\<lparr>cells = (\<lambda>_. [])(0 := [(''module'', ''mod'')], 1 := [(''module'', ''mod'')]), free = 2\<rparr>"
  let ?r1 = "\<lparr>check = check exampleRegistry,
          collectors = [\<lparr>fqName = ''g'', helpStr = ''h'', kind = MetricTypeGauge,
                          variableLabels = [''module''],
                          children = [([''mod''], [Float64FromInt 1])]\<rparr>,
                        \<lparr>fqName = ''c'', helpStr = ''h'', kind = MetricTypeCounter,
                          variableLabels = [''module''],
                          children = [([''mod''], [Float64FromInt 1])]\<rparr>]\<rparr>"
  let ?X = "registerMetrics (\<lambda>_. []) exampleRegistry ''mod'' (?pre @ [?m]) emptyStore"
  have pre: "registerMetrics (\<lambda>_. []) exampleRegistry ''mod'' ?pre emptyStore = (Return None, ?h1, ?r1)"
    by (simp add: registry_eval)
  have run: "?X = (fst ?X, fst (snd ?X), snd (snd ?X))" by simp
  have ty: "metric.MetricType ?m = MetricTypeGauge \<or> metric.MetricType ?m = MetricTypeCounter"
    by (simp add: counterMetric_def)
  have cond: "\<exists>m0 \<in> set ?pre. metric.Name m0 = metric.Name ?m
      \<and> metric.MetricType m0 = metric.MetricType ?m"
    by (simp add: counterMetric_def)
  note main = C9_one_collector_per_name_and_kind [OF pre run ty, THEN conjunct2, THEN conjunct2,
      unfolded if_P [OF cond]]
  then obtain p where p: "p < length (collectors ?r1)"
    and nm: "fqName (collectors ?r1 ! p) = metric.Name ?m"
    and len: "length (collectors (snd (snd ?X))) = length (collectors ?r1)"
    and others: "\<forall>i. i \<noteq> p \<longrightarrow> collectors (snd (snd ?X)) ! i = collectors ?r1 ! i"
    and app: "case labelValues (collectors ?r1 ! p) (labelsOf ''mod'' ?m ?h1) of
        Inl e \<Rightarrow>
          collectors (snd (snd ?X)) ! p = collectors ?r1 ! p
          \<and> (metric.MetricType ?m = MetricTypeCounter \<longrightarrow>
               fst ?X = Return (Some (MetricValueError (metric.Name ?m) MetricTypeCounter
                       (metric.Value ?m) (labelsOf ''mod'' ?m ?h1) e)))
      | Inr lvs \<Rightarrow>
          collectors (snd (snd ?X)) ! p = (collectors ?r1 ! p)\<lparr>children :=
             AList.update lvs
               (if metric.MetricType ?m = MetricTypeGauge then [metric.Value ?m]
                else if float64_less_zero (metric.Value ?m)
                then childValues (collectors ?r1 ! p) lvs
                else childValues (collectors ?r1 ! p) lvs @ [metric.Value ?m])
               (children (collectors ?r1 ! p))\<rparr>
          \<and> fst ?X = (if metric.MetricType ?m = MetricTypeCounter
                       \<and> float64_less_zero (metric.Value ?m)
                    then Return (Some (MetricValueError (metric.Name ?m) MetricTypeCounter
                           (metric.Value ?m) (labelsOf ''mod'' ?m ?h1)
                           CounterCannotDecrease))
                    else Return None)"
    by (elim exE conjE)
  from p nm have p1: "p = 1"
    by (cases p) (simp_all add: counterMetric_def)
  from others p1 have c0: "collectors (snd (snd ?X)) ! 0 = collectors ?r1 ! 0" by simp
  from app have c1: "collectors (snd (snd ?X)) ! 1
        = \<lparr>fqName = ''c'', helpStr = ''h'', kind = MetricTypeCounter, variableLabels = [''module''],
            children = [([''mod''], [Float64FromInt 1, Float64FromInt 2])]\<rparr>"
    and res: "fst ?X = Return None"
    unfolding p1
    by (simp_all add: labelValues_def labelsOf_def injectModule_def newMap_def counterMetric_def
        childValues_def)
  from len have len2: "length (collectors (snd (snd ?X))) = 2" by simp
  from c0 have c0': "collectors (snd (snd ?X)) ! 0
        = \<lparr>fqName = ''g'', helpStr = ''h'', kind = MetricTypeGauge, variableLabels = [''module''],
            children = [([''mod''], [Float64FromInt 1])]\<rparr>"
    by simp
  from res len2 c0' c1 show ?thesis by simp
qed

text \<open>
  Claim C9 as stated fails on a counter that follows a gauge of the same name: it is the
  first metric of its name and kind, and no collector is created for it, because a new
  registry refuses a second collector of that name.
\<close>

theorem C9_counterexample:
  "metric.MetricType (gaugeMetric ''x'' 1) = MetricTypeGauge
   \<and> metric.Name (counterMetric ''x'' 2) = ''x''
   \<and> metric.MetricType (counterMetric ''x'' 2) = MetricTypeCounter
   \<and> registerMetrics (\<lambda>_. []) (NewRegistry (\<lambda>_. True)) ''mod''
        [gaugeMetric ''x'' 1, counterMetric ''x'' 2] emptyStore
     = (Return (Some (RegisterMetricError ''x'' (AlreadyRegistered ''x''))),
        \<lparr>cells = (\<lambda>_. [])(0 := [(''module'', ''mod'')], 1 := [(''module'', ''mod'')]), free = 2\<rparr>,
        \<lparr>check = check (NewRegistry (\<lambda>_. True)),
          collectors = [\<lparr>fqName = ''x'', helpStr = ''h'', kind = MetricTypeGauge,
                          variableLabels = [''module''],
                          children = [([''mod''], [Float64FromInt 1])]\<rparr>]\<rparr>)"
  by (simp add: registry_eval)

lemma injectModule_shared:
  assumes "metric.Labels m = Some a"
  shows "cells (snd (injectModule moduleName m h)) a = AList.update ''module'' moduleName (cells h a)"
  using assms by (simp add: injectModule_def)

lemma injectModule_fresh:
  assumes "metric.Labels m = None" and "a < free h"
  shows "cells (snd (injectModule moduleName m h)) a = cells h a"
  using assms by (simp add: injectModule_def newMap_def)

lemma withSet_heap: "heap (snd (withSet p labels v st)) = heap st"
  by (simp add: withSet_def split: sum.splits)

lemma withAdd_heap: "heap (snd (withAdd p m labels st)) = heap st"
  by (simp add: withAdd_def split: sum.splits)

lemma registerMetric_heap:
  "heap (snd (registerMetric rnd moduleName m st)) = snd (injectModule moduleName m (heap st))"
proof (cases "metric.MetricType m")
  case MetricTypeGauge
  then show ?thesis
    by (cases "registeredGauges st (metric.Name m)")
      (simp_all add: registerMetric_gauge_hit registerMetric_gauge_miss withSet_heap
        split: option.splits)
next
  case MetricTypeCounter
  then show ?thesis
    by (cases "registeredCounters st (metric.Name m)")
      (simp_all add: registerMetric_counter_hit registerMetric_counter_miss withAdd_heap
        split: option.splits)
next
  case (MetricTypeOther x)
  then show ?thesis by (simp add: registerMetric_other)
qed

lemma registerMetric_writes_shared_labels:
  assumes "metric.Labels m = Some a"
  shows "cells (heap (snd (registerMetric rnd moduleName m st))) a
    = AList.update ''module'' moduleName (cells (heap st) a)"
  using assms by (simp add: registerMetric_heap injectModule_shared)

lemma scrapeMetric_shares_labels:
  assumes "scrapeMetric d f s = (Return (m, None), s')"
  shows "metric.Labels m = MetricDef.Labels d"
  using scrapeMetric_assembled [OF assms] by simp

lemma labelValues_NewGaugeVec_keys:
  "labelValues (NewGaugeVec name helpText (keys rnd labels)) labels =
    Inr (map (\<lambda>n. case map_of labels n of None \<Rightarrow> [] | Some v \<Rightarrow> v) (keys rnd labels))"
  by (rule labelValues_own_keys) (simp add: NewGaugeVec_def)

lemma scrape_example:
  "fst (Scrape rnd (\<lambda>_. True) exampleNetwork exampleExporter ''plc:502'' 1 ''mod'' exampleStore [])
       = Return (Some \<lparr>check = check (NewRegistry (\<lambda>_. True)),
           collectors = [\<lparr>fqName = ''m'', helpStr = ''h'', kind = MetricTypeGauge,
              variableLabels = keys (rnd 0) [(''unit'', ''kW''), (''module'', ''mod'')],
              children = [(map (\<lambda>k. case map_of [(''unit'', ''kW''), (''module'', ''mod'')] k of
                                      None \<Rightarrow> [] | Some x \<Rightarrow> x)
                             (keys (rnd 0) [(''unit'', ''kW''), (''module'', ''mod'')]),
                           [Float64FromInt 7])]\<rparr>]\<rparr>, None)
   \<and> cells (fst (snd (Scrape rnd (\<lambda>_. True) exampleNetwork exampleExporter ''plc:502'' 1 ''mod''
                         exampleStore []))) 0
       = [(''unit'', ''kW''), (''module'', ''mod'')]"
proof -
  have lv: "labelValues
      \<lparr>fqName = ''m'', helpStr = ''h'', kind = MetricTypeGauge,
        variableLabels = keys (rnd 0) [(''unit'', ''kW''), (''module'', ''mod'')], children = []\<rparr>
      [(''unit'', ''kW''), (''module'', ''mod'')]
    = Inr (map (\<lambda>k. case map_of [(''unit'', ''kW''), (''module'', ''mod'')] k of
                        None \<Rightarrow> [] | Some x \<Rightarrow> x)
            (keys (rnd 0) [(''unit'', ''kW''), (''module'', ''mod'')]))"
    using labelValues_NewGaugeVec_keys [of "''m''" "''h''" "rnd 0" "[(''unit'', ''kW''), (''module'', ''mod'')]"]
    by (simp add: NewGaugeVec_def)
  show ?thesis
    by (simp add: Scrape_def GetModule_def exampleExporter_def exampleNetwork_def exampleStore_def
      metricDefAt_def scrapeMetrics_def scrapeMetric_def selectFunc_def fakeClient_def
      parseModbusData_def registerMetrics_def registerMetric_def injectModule_def newMap_def
      NewRegistry_def newState_def Register_def NewGaugeVec_def withSet_def With_def withChild_def
      gaugeSet_def childValues_def Let_def lv)
qed

text \<open>
  Claim C8 asks that a scrape leave every metric definition unchanged. The code does not:
  the assembled metric holds the definition's own label map, and \<open>registerMetrics\<close>
  writes the module label into it. Here a module has one definition whose label map, at
  address 0, is unit = kW. Whatever order the runtime picks for the label names, the scrape
  succeeds, and afterwards the definition's label map holds the label module = mod as well.
  The third conjunct is the run in which the runtime yields the label names in the order
  unit, module.
\<close>

theorem C8_scrape_writes_definition_labels:
  "cells exampleStore 0 = [(''unit'', ''kW'')]
   \<and> fst (Scrape rnd (\<lambda>_. True) exampleNetwork exampleExporter ''plc:502'' 1 ''mod'' exampleStore [])
       = Return (Some \<lparr>check = check (NewRegistry (\<lambda>_. True)),
           collectors = [\<lparr>fqName = ''m'', helpStr = ''h'', kind = MetricTypeGauge,
              variableLabels = keys (rnd 0) [(''unit'', ''kW''), (''module'', ''mod'')],
              children = [(map (\<lambda>k. case map_of [(''unit'', ''kW''), (''module'', ''mod'')] k of
                                      None \<Rightarrow> [] | Some x \<Rightarrow> x)
                             (keys (rnd 0) [(''unit'', ''kW''), (''module'', ''mod'')]),
                           [Float64FromInt 7])]\<rparr>]\<rparr>, None)
   \<and> fst (Scrape (\<lambda>_. []) (\<lambda>_. True) exampleNetwork exampleExporter ''plc:502'' 1 ''mod'' exampleStore [])
       = Return (Some \<lparr>check = check (NewRegistry (\<lambda>_. True)),
           collectors = [\<lparr>fqName = ''m'', helpStr = ''h'', kind = MetricTypeGauge,
              variableLabels = [''unit'', ''module''],
              children = [([''kW'', ''mod''], [Float64FromInt 7])]\<rparr>]\<rparr>, None)
   \<and> cells (fst (snd (Scrape rnd (\<lambda>_. True) exampleNetwork exampleExporter ''plc:502'' 1 ''mod''
                         exampleStore []))) 0
       = [(''unit'', ''kW''), (''module'', ''mod'')]"
proof -
  have a: "cells exampleStore 0 = [(''unit'', ''kW'')]" by (simp add: exampleStore_def)
  note g = scrape_example [of rnd]
  have c: "fst (Scrape (\<lambda>_. []) (\<lambda>_. True) exampleNetwork exampleExporter ''plc:502'' 1 ''mod'' exampleStore [])
       = Return (Some \<lparr>check = check (NewRegistry (\<lambda>_. True)),
           collectors = [\<lparr>fqName = ''m'', helpStr = ''h'', kind = MetricTypeGauge,
              variableLabels = [''unit'', ''module''],
              children = [([''kW'', ''mod''], [Float64FromInt 7])]\<rparr>]\<rparr>, None)"
    using scrape_example [of "\<lambda>_. []"] by (simp add: keys_def)
  show ?thesis by (intro conjI a c g [THEN conjunct1] g [THEN conjunct2])
qed

end
